theory Spec2Isabelle
  imports Complex_Main "HOL-Library.Char_ord" "HOL-Library.List_Lexorder"
begin

section \<open>Re-ranker model limits\<close>

text \<open>
  The static method \<^verbatim>\<open>VoyageReranker.getModelLimits(model)\<close> is a \<^verbatim>\<open>switch\<close> on the
  model name with a \<^verbatim>\<open>default\<close> branch; it returns a record of three numbers.
\<close>

record model_limits =
  maxQueryTokens :: nat
  maxDocuments :: nat
  maxTotalTokens :: nat

definition getModelLimits :: "string \<Rightarrow> model_limits" where
  "getModelLimits model =
     (if model = ''rerank-2'' \<or> model = ''rerank-2-lite'' then
        \<lparr>maxQueryTokens = 2000, maxDocuments = 1000, maxTotalTokens = 300000\<rparr>
      else if model = ''rerank-1'' then
        \<lparr>maxQueryTokens = 2000, maxDocuments = 1000, maxTotalTokens = 100000\<rparr>
      else if model = ''rerank-lite-1'' then
        \<lparr>maxQueryTokens = 1000, maxDocuments = 1000, maxTotalTokens = 300000\<rparr>
      else
        \<lparr>maxQueryTokens = 1000, maxDocuments = 1000, maxTotalTokens = 100000\<rparr>)"

section \<open>JavaScript values\<close>

text \<open>
  Payloads whose TypeScript type is \<^verbatim>\<open>unknown\<close> (error details, parsed tool output) are
  JavaScript values. \<^verbatim>\<open>JUndefined\<close> is the value of an absent property.
\<close>

datatype jsval =
    JUndefined
  | JNull
  | JBool bool
  | JNum int
  | JStr string
  | JArr "jsval list"
  | JObj "(string \<times> jsval) list"

text \<open>Truthiness of an optional string: \<^verbatim>\<open>undefined\<close> and \<^verbatim>\<open>""\<close> are falsy.\<close>

fun truthy_str :: "string option \<Rightarrow> bool" where
  "truthy_str None = False"
| "truthy_str (Some s) = (s \<noteq> [])"

text \<open>The operator \<^verbatim>\<open>a || b\<close> on optional strings: \<^verbatim>\<open>a\<close> when it is truthy, else \<^verbatim>\<open>b\<close>.\<close>

definition or_str :: "string option \<Rightarrow> string option \<Rightarrow> string option" where
  "or_str a b = (if truthy_str a then a else b)"

section \<open>Parsing a tool result\<close>

text \<open>
  \<^verbatim>\<open>ToolExecutionResult\<close> is \<^verbatim>\<open>{ content: Array<{ type: string; text: string }> }\<close>. The text
  is kept optional because \<^verbatim>\<open>parseToolResult\<close> reads it with \<^verbatim>\<open>?.\<close> and tests it for
  truthiness. \<^verbatim>\<open>JSON.parse\<close> belongs to the runtime: it is the parameter \<open>parse\<close>, which
  gives \<open>None\<close> where \<^verbatim>\<open>JSON.parse\<close> throws a \<^verbatim>\<open>SyntaxError\<close>.
\<close>

record content_item =
  item_type :: string
  item_text :: "string option"

record ToolExecutionResult =
  content :: "content_item list"

datatype js_exception = SyntaxError

text \<open>The body of the \<^verbatim>\<open>try\<close> block; \<open>Inl\<close> is a thrown exception.\<close>

definition parseToolResult_try ::
  "(string \<Rightarrow> jsval option) \<Rightarrow> ToolExecutionResult \<Rightarrow> js_exception + jsval" where
  "parseToolResult_try parse result =
     (let textContent = (case content result of [] \<Rightarrow> None | c # _ \<Rightarrow> item_text c) in
      if \<not> truthy_str textContent then Inr (JObj [(''success'', JBool False), (''error'', JStr ''Empty response from tool'')])
      else (case textContent of
              None \<Rightarrow> Inr (JObj [(''success'', JBool False), (''error'', JStr ''Empty response from tool'')])
            | Some t \<Rightarrow> (case parse t of None \<Rightarrow> Inl SyntaxError | Some v \<Rightarrow> Inr v)))"

text \<open>
  The whole function: the \<^verbatim>\<open>catch\<close> block logs a warning and returns the failure object.
\<close>

definition parseToolResult ::
  "(string \<Rightarrow> jsval option) \<Rightarrow> ToolExecutionResult \<Rightarrow> js_exception + jsval" where
  "parseToolResult parse result =
     (case parseToolResult_try parse result of
        Inl _ \<Rightarrow> Inr (JObj [(''success'', JBool False), (''error'', JStr ''Failed to parse tool response'')])
      | Inr v \<Rightarrow> Inr v)"

section \<open>HTTP error handling\<close>

text \<open>
  Errors reaching the error middleware. \<^verbatim>\<open>instanceof\<close> tests are the constructors.
  \<^item> \<open>AgentBusyError\<close>: the class lives in \<^verbatim>\<open>types/errors\<close>; the handler reads its message
    and details. Fields: message, stack, details.
  \<^item> \<open>HttpError\<close>: the class of this module, \<^verbatim>\<open>constructor(statusCode, message, code?, details?)\<close>;
    its name is \<^verbatim>\<open>"HttpError"\<close>. Fields: statusCode, message, code, details, stack.
  \<^item> \<open>OtherError\<close>: any other \<^verbatim>\<open>ApiError\<close>. Fields: name, message, stack, statusCode, code,
    details, and the \<^verbatim>\<open>errors\<close> property that a \<^verbatim>\<open>ZodError\<close> carries.
\<close>

datatype api_error =
    AgentBusyError string "string option" jsval
  | HttpError nat string "string option" jsval "string option"
  | OtherError string string "string option" "nat option" "string option" jsval jsval

fun err_message :: "api_error \<Rightarrow> string" where
  "err_message (AgentBusyError m _ _) = m"
| "err_message (HttpError _ m _ _ _) = m"
| "err_message (OtherError _ m _ _ _ _ _) = m"

fun err_stack :: "api_error \<Rightarrow> string option" where
  "err_stack (AgentBusyError _ s _) = s"
| "err_stack (HttpError _ _ _ _ s) = s"
| "err_stack (OtherError _ _ s _ _ _ _) = s"

fun set_stack :: "string option \<Rightarrow> api_error \<Rightarrow> api_error" where
  "set_stack s (AgentBusyError m _ d) = AgentBusyError m s d"
| "set_stack s (HttpError st m c d _) = HttpError st m c d s"
| "set_stack s (OtherError n m _ st c d es) = OtherError n m s st c d es"

text \<open>The JSON body \<^verbatim>\<open>{ success: false, error: { message, code, details?, requestId? } }\<close>.\<close>

record error_body =
  message :: string
  code :: string
  details :: "jsval option"
  requestId :: "string option"

record http_response =
  status :: nat
  body :: error_body

text \<open>
  \<^verbatim>\<open>formatErrorResponse(error, requestId)\<close>, on the fields of \<^verbatim>\<open>error\<close> that it reads:
  message, code, name and details.
\<close>

definition formatErrorResponse ::
  "string \<Rightarrow> string option \<Rightarrow> string \<Rightarrow> jsval \<Rightarrow> string option \<Rightarrow> error_body" where
  "formatErrorResponse msg cd nm det rid =
     \<lparr>message = msg,
      code = (if truthy_str cd then (case cd of Some c \<Rightarrow> c | None \<Rightarrow> nm) else nm),
      details = (if det \<noteq> JUndefined then Some det else None),
      requestId = (if truthy_str rid then rid else None)\<rparr>"

record request_ctx =
  header_x_request_id :: "string option"
  headersSent :: bool
  locals_requestId :: "string option"

text \<open>
  \<^verbatim>\<open>errorHandler(err, req, res, next)\<close>. The first argument is \<^verbatim>\<open>process.env.NODE_ENV\<close>.
  The result is the response written, \<open>None\<close> when the handler returns without writing
  one. The console and logger calls write to the log only.
\<close>

definition errorHandler ::
  "string option \<Rightarrow> api_error \<Rightarrow> request_ctx \<Rightarrow> http_response option" where
  "errorHandler node_env err ctx =
     (if headersSent ctx then None
      else
        let rid = or_str (locals_requestId ctx) (header_x_request_id ctx);
            isDev = (node_env \<noteq> Some ''production'')
        in
        (case err of
           AgentBusyError m stk det \<Rightarrow>
             Some \<lparr>status = 503,
                   body = formatErrorResponse m (Some ''AGENT_BUSY'') ''Error'' det rid\<rparr>
         | HttpError st m cd det stk \<Rightarrow>
             Some \<lparr>status = st, body = formatErrorResponse m cd ''HttpError'' det rid\<rparr>
         | OtherError nm m stk st cd det errs \<Rightarrow>
             if nm = ''ValidationError'' then
               Some \<lparr>status = 400,
                     body = formatErrorResponse m (Some ''VALIDATION_ERROR'') ''Error'' det rid\<rparr>
             else if nm = ''ZodError'' then
               Some \<lparr>status = 400,
                     body = \<lparr>message = ''Validation failed'', code = ''VALIDATION_ERROR'',
                             details = (if errs \<noteq> JUndefined then Some errs else None),
                             requestId = rid\<rparr>\<rparr>
             else
               let statusCode = (case st of None \<Rightarrow> 500 | Some n \<Rightarrow> if n = 0 then 500 else n);
                   errorMessage =
                     (if isDev \<or> statusCode \<noteq> 500 then m else ''Internal server error'');
                   dcode = or_str cd (Some nm);
                   ddetails =
                     (if isDev then
                        JObj [(''stack'', (case stk of None \<Rightarrow> JUndefined | Some s \<Rightarrow> JStr s)),
                              (''originalMessage'', JStr m)]
                      else det)
               in Some \<lparr>status = statusCode,
                        body = formatErrorResponse errorMessage dcode ''Error'' ddetails rid\<rparr>))"

text \<open>
  The errors that reach the last branch of \<^verbatim>\<open>errorHandler\<close> ("default to 500 for unknown
  errors"): neither an \<^verbatim>\<open>AgentBusyError\<close> nor an \<^verbatim>\<open>HttpError\<close>, and named neither
  \<^verbatim>\<open>ValidationError\<close> nor \<^verbatim>\<open>ZodError\<close>.
\<close>

fun default_branch :: "api_error \<Rightarrow> bool" where
  "default_branch (OtherError nm _ _ _ _ _ _) = (nm \<noteq> ''ValidationError'' \<and> nm \<noteq> ''ZodError'')"
| "default_branch _ = False"

section \<open>Body validation middleware\<close>

text \<open>
  \<^verbatim>\<open>schema.parse\<close> belongs to Zod: it returns the parsed value (defaults applied), throws a
  \<^verbatim>\<open>ZodError\<close> carrying the list of issues, or throws something else.
\<close>

datatype 'b parse_result =
    Parsed 'b
  | Throws_ZodError jsval
  | Throws_other api_error

record 'b request =
  req_body :: 'b
  req_ctx :: request_ctx

text \<open>What the middleware passes on: \<^verbatim>\<open>next()\<close> or \<^verbatim>\<open>next(err)\<close>.\<close>

datatype 'b next_call =
    Next "'b request"
  | Next_error api_error

text \<open>
  \<^verbatim>\<open>validateBody(schema)\<close> applied to a request. \<open>stk\<close> is the stack that the
  \<^verbatim>\<open>HttpError\<close> constructor captures.
\<close>

definition validateBody ::
  "string option \<Rightarrow> ('b \<Rightarrow> 'b parse_result) \<Rightarrow> 'b request \<Rightarrow> 'b next_call" where
  "validateBody stk schema req =
     (case schema (req_body req) of
        Parsed b \<Rightarrow> Next (req\<lparr>req_body := b\<rparr>)
      | Throws_ZodError issues \<Rightarrow>
          Next_error (HttpError 400 ''Validation failed'' (Some ''VALIDATION_ERROR'')
                        (JObj [(''errors'', issues)]) stk)
      | Throws_other e \<Rightarrow> Next_error e)"

text \<open>
  A route \<^verbatim>\<open>router.post(path, validateBody(schema), handler)\<close> under Express dispatch:
  \<^verbatim>\<open>next()\<close> runs the route handler on the request, \<^verbatim>\<open>next(err)\<close> skips it and runs the
  error middleware.
\<close>

datatype 'r route_outcome =
    Handled 'r
  | Rejected "http_response option"

definition validated_route ::
  "string option \<Rightarrow> string option \<Rightarrow> ('b \<Rightarrow> 'b parse_result) \<Rightarrow> ('b request \<Rightarrow> 'r) \<Rightarrow>
     'b request \<Rightarrow> 'r route_outcome" where
  "validated_route node_env stk schema handler req =
     (case validateBody stk schema req of
        Next req' \<Rightarrow> Handled (handler req')
      | Next_error e \<Rightarrow> Rejected (errorHandler node_env e (req_ctx req)))"

section \<open>Conductor admission control\<close>

text \<open>
  Modelled from the spec: the Conductor (\<^verbatim>\<open>agents/conductor-orchestrator\<close>) and the
  \<^verbatim>\<open>AgentBusyError\<close> class (\<^verbatim>\<open>types/errors\<close>) are not among the sources. Section 3 gives the
  worker state (in-flight count, configured concurrency limit, cumulative counts), section
  4.1 the contract of \<^verbatim>\<open>submit\<close>: an unknown operation name fails with \<^verbatim>\<open>UnknownOperation\<close>; a
  submission is accepted only if the worker's in-flight count is below its limit, otherwise
  an \<^verbatim>\<open>AgentBusyError\<close> carrying the worker name and the current load is returned at once; on
  admission the in-flight count is incremented, the worker is invoked, and the count is
  decremented on completion, success or failure; a worker exception is returned wrapped as
  an \<^verbatim>\<open>OperationError\<close>.
\<close>

record WorkerState =
  inFlight :: nat
  concurrencyLimit :: nat
  accepted :: nat
  rejected :: nat
  failed :: nat

datatype conductor_error =
    UnknownOperation string
  | AgentBusy string nat
  | OperationError string

definition submit ::
  "(string \<rightharpoonup> string) \<Rightarrow> (string \<Rightarrow> 'a \<Rightarrow> string + 'r) \<Rightarrow> (string \<rightharpoonup> WorkerState) \<Rightarrow>
     string \<Rightarrow> 'a \<Rightarrow> (conductor_error + 'r) \<times> (string \<rightharpoonup> WorkerState)" where
  "submit registry worker workers operationName args =
     (case registry operationName of
        None \<Rightarrow> (Inl (UnknownOperation operationName), workers)
      | Some w \<Rightarrow>
          (case workers w of
             None \<Rightarrow> (Inl (UnknownOperation operationName), workers)
           | Some ws \<Rightarrow>
               if inFlight ws < concurrencyLimit ws then
                 let running = ws\<lparr>inFlight := inFlight ws + 1, accepted := accepted ws + 1\<rparr> in
                 (case worker w args of
                    Inr r \<Rightarrow>
                      (Inr r, workers(w \<mapsto> running\<lparr>inFlight := inFlight running - 1\<rparr>))
                  | Inl msg \<Rightarrow>
                      (Inl (OperationError msg),
                       workers(w \<mapsto> running\<lparr>inFlight := inFlight running - 1,
                                              failed := failed running + 1\<rparr>)))
               else
                 (Inl (AgentBusy w (inFlight ws)),
                  workers(w \<mapsto> ws\<lparr>rejected := rejected ws + 1\<rparr>))))"

text \<open>The in-flight count of a worker, \<open>None\<close> for an unknown worker.\<close>

definition inFlightOf :: "(string \<rightharpoonup> WorkerState) \<Rightarrow> string \<Rightarrow> nat option" where
  "inFlightOf workers w = map_option inFlight (workers w)"

section \<open>Voyage embedding provider\<close>

text \<open>
  The input of one HTTP request: \<^verbatim>\<open>buildBody\<close> takes \<^verbatim>\<open>string | string[]\<close>.
\<close>

datatype embed_input =
    Single_text string
  | Text_list "string list"

text \<open>
  The JSON of a response, as far as the parsers look at it: \<open>Json_other\<close> is a value
  that is falsy or whose \<^verbatim>\<open>data\<close> is not an array; an element of \<^verbatim>\<open>data\<close> is \<^verbatim>\<open>null\<close> or an
  object whose \<^verbatim>\<open>embedding\<close> is an array (\<open>Some\<close>) or not.
\<close>

datatype 'e datum =
    Null_datum
  | Datum "'e option"

datatype 'e voyage_json =
    Json_other
  | Json_data "'e datum list"

datatype provider_error =
    Request_failed string
  | Invalid_response string
  | TypeError

text \<open>
  The results of a list of calls, in order; the first failure if one fails. This is how
  \<^verbatim>\<open>Promise.all\<close> and \<^verbatim>\<open>Array.map\<close> with a throwing callback combine results (for
  \<^verbatim>\<open>Promise.all\<close> the rejection reported is the earliest in time; the list order stands
  for it).
\<close>

fun collect :: "('x + 'a) list \<Rightarrow> 'x + 'a list" where
  "collect [] = Inr []"
| "collect (Inl e # rs) = Inl e"
| "collect (Inr v # rs) = (case collect rs of Inl e \<Rightarrow> Inl e | Inr vs \<Rightarrow> Inr (v # vs))"

text \<open>
  \<^verbatim>\<open>parseSingle\<close> and \<^verbatim>\<open>parseBatch\<close>. The parameter \<open>toFloat32\<close> is
  \<^verbatim>\<open>new Float32Array(x)\<close>, applied to the \<^verbatim>\<open>embedding\<close> property. Both parsers also cache
  the dimension in \<^verbatim>\<open>this.info.dimension\<close>, which no result depends on.
\<close>

definition parseSingle :: "('e option \<Rightarrow> 'v) \<Rightarrow> 'e voyage_json \<Rightarrow> provider_error + 'v" where
  "parseSingle toFloat32 json =
     (case json of
        Json_data (Datum (Some e) # _) \<Rightarrow> Inr (toFloat32 (Some e))
      | _ \<Rightarrow> Inl (Invalid_response ''Voyage AI invalid embedding response''))"

definition parseBatch :: "('e option \<Rightarrow> 'v) \<Rightarrow> 'e voyage_json \<Rightarrow> provider_error + 'v list" where
  "parseBatch toFloat32 json =
     (case json of
        Json_other \<Rightarrow> Inl (Invalid_response ''Voyage AI invalid batch response'')
      | Json_data ds \<Rightarrow>
          collect (map (\<lambda>d. case d of Null_datum \<Rightarrow> Inl TypeError
                                     | Datum e \<Rightarrow> Inr (toFloat32 e)) ds))"

text \<open>
  Modelled from the spec: the \<^verbatim>\<open>HttpEngine\<close> class (\<^verbatim>\<open>semantic/providers/http-engine\<close>) is
  not among the sources. The provider behind it is the parameter \<open>request\<close>: the outcome
  of one HTTP call for an input, \<open>Inl\<close> when the upstream call fails. \<^verbatim>\<open>callSingle\<close> makes
  one call and parses the answer; \<^verbatim>\<open>callBatch\<close> is the element-wise path (section 6: "a
  failed batch call should fall back to element-wise calls"): one call per text.
\<close>

definition callSingle ::
  "(embed_input \<Rightarrow> string + 'e voyage_json) \<Rightarrow> embed_input \<Rightarrow>
     ('e voyage_json \<Rightarrow> provider_error + 'a) \<Rightarrow> provider_error + 'a" where
  "callSingle request input parse =
     (case request input of Inl msg \<Rightarrow> Inl (Request_failed msg) | Inr json \<Rightarrow> parse json)"

definition callBatch ::
  "(embed_input \<Rightarrow> string + 'e voyage_json) \<Rightarrow> string list \<Rightarrow>
     ('e voyage_json \<Rightarrow> provider_error + 'a) \<Rightarrow> provider_error + 'a list" where
  "callBatch request texts parse =
     collect (map (\<lambda>t. callSingle request (Single_text t) parse) texts)"

text \<open>\<^verbatim>\<open>texts.slice(i, j)\<close> for indices \<open>0 \<le> i \<le> j\<close>.\<close>

definition slice :: "'a list \<Rightarrow> nat \<Rightarrow> nat \<Rightarrow> 'a list" where
  "slice xs i j = take (j - i) (drop i xs)"

text \<open>
  The chunking loop \<^verbatim>\<open>for (let i = 0; i < texts.length; i += size) chunks.push(...)\<close>.
  With a size of 0 it never ends: the result \<open>None\<close> stands for not returning.
\<close>

partial_function (option) chunk_loop ::
  "string list \<Rightarrow> nat \<Rightarrow> nat \<Rightarrow> string list list \<Rightarrow> string list list option" where
  "chunk_loop texts size' i chunks =
     (if i < length texts
      then chunk_loop texts size' (i + size') (chunks @ [slice texts i (i + size')])
      else Some chunks)"

text \<open>
  \<^verbatim>\<open>embedBatch(texts)\<close>, with \<^verbatim>\<open>this.info.maxBatchSize\<close> as the third argument. The result
  is \<open>None\<close> when the call does not return, \<open>Some (Inl e)\<close> when the promise rejects.
\<close>

definition embedBatch ::
  "('e option \<Rightarrow> 'v) \<Rightarrow> (embed_input \<Rightarrow> string + 'e voyage_json) \<Rightarrow> nat option \<Rightarrow>
     string list \<Rightarrow> (provider_error + 'v list) option" where
  "embedBatch toFloat32 request maxBatchSize texts =
     (let size' = (case maxBatchSize of None \<Rightarrow> length texts | Some n \<Rightarrow> n) in
      if size' < length texts then
        (case chunk_loop texts size' 0 [] of
           None \<Rightarrow> None
         | Some chunks \<Rightarrow>
             Some (case collect (map (\<lambda>c. callSingle request (Text_list c)
                                             (parseBatch toFloat32)) chunks) of
                     Inl e \<Rightarrow> Inl e
                   | Inr parts \<Rightarrow> Inr (concat parts)))
      else
        Some (case callSingle request (Text_list texts) (parseBatch toFloat32) of
                Inr vs \<Rightarrow> Inr vs
              | Inl err \<Rightarrow> callBatch request texts (parseSingle toFloat32)))"



section \<open>Hybrid search: reciprocal rank fusion\<close>

text \<open>
  Modelled from the spec: the hybrid search engine and its \<^verbatim>\<open>fuse\<close> are not among the
  sources. Section 3 gives the ranked hit (entity reference, raw score, source, optional
  rerank score); section 4.4 the algorithm: a candidate at rank \<open>r\<close> (1-based) of a list
  contributes \<open>1 / (k + r)\<close>; contributions are summed across the two lists, weighted by
  \<^verbatim>\<open>structuralWeight\<close> and \<^verbatim>\<open>semanticWeight\<close>; candidates are sorted by combined score
  descending, ties broken by higher semantic raw score, then by entity id. Scores are exact
  rationals. The rank of a candidate in a list is the position of its first hit there.
\<close>

datatype hit_source = Structural | Semantic

record 'i RankedHit =
  entity :: 'i
  rawScore :: rat
  source :: hit_source
  rerankScore :: "rat option"

record 'i FusedHit =
  fid :: 'i
  combined :: rat
  semanticRaw :: "rat option"

fun rank_from :: "nat \<Rightarrow> 'i \<Rightarrow> 'i RankedHit list \<Rightarrow> nat option" where
  "rank_from r c [] = None"
| "rank_from r c (h # hs) = (if entity h = c then Some r else rank_from (Suc r) c hs)"

definition rank_of :: "'i \<Rightarrow> 'i RankedHit list \<Rightarrow> nat option" where
  "rank_of c hits = rank_from 1 c hits"

fun rrf :: "nat \<Rightarrow> nat option \<Rightarrow> rat" where
  "rrf k None = 0"
| "rrf k (Some r) = 1 / of_nat (k + r)"

fun raw_of :: "'i \<Rightarrow> 'i RankedHit list \<Rightarrow> rat option" where
  "raw_of c [] = None"
| "raw_of c (h # hs) = (if entity h = c then Some (rawScore h) else raw_of c hs)"

text \<open>
  "Higher semantic raw score": a candidate without a semantic hit has no semantic raw
  score and comes after one that has (the spec leaves this case open).
\<close>

fun sem_higher :: "rat option \<Rightarrow> rat option \<Rightarrow> bool" where
  "sem_higher (Some x) (Some y) = (y < x)"
| "sem_higher (Some x) None = True"
| "sem_higher None _ = False"

text \<open>The order of the result: \<open>before a b\<close> when \<open>a\<close> may stand before \<open>b\<close>.\<close>

definition before :: "('i::linorder) FusedHit \<Rightarrow> 'i FusedHit \<Rightarrow> bool" where
  "before a b =
     (combined b < combined a
      \<or> (combined a = combined b
          \<and> (sem_higher (semanticRaw a) (semanticRaw b)
              \<or> (semanticRaw a = semanticRaw b \<and> fid a \<le> fid b))))"

text \<open>Sorting by insertion into a sorted list.\<close>

fun insert_hit :: "('i::linorder) FusedHit \<Rightarrow> 'i FusedHit list \<Rightarrow> 'i FusedHit list" where
  "insert_hit x [] = [x]"
| "insert_hit x (y # ys) = (if before x y then x # y # ys else y # insert_hit x ys)"

fun sort_hits :: "('i::linorder) FusedHit list \<Rightarrow> 'i FusedHit list" where
  "sort_hits [] = []"
| "sort_hits (x # xs) = insert_hit x (sort_hits xs)"

definition candidates :: "'i RankedHit list \<Rightarrow> 'i RankedHit list \<Rightarrow> 'i list" where
  "candidates structural semantic = remdups (map entity structural @ map entity semantic)"

definition combined_score ::
  "nat \<Rightarrow> rat \<Rightarrow> rat \<Rightarrow> 'i RankedHit list \<Rightarrow> 'i RankedHit list \<Rightarrow> 'i \<Rightarrow> rat" where
  "combined_score k structuralWeight semanticWeight structural semantic c =
     structuralWeight * rrf k (rank_of c structural) + semanticWeight * rrf k (rank_of c semantic)"

definition fuse ::
  "nat \<Rightarrow> rat \<Rightarrow> rat \<Rightarrow> ('i::linorder) RankedHit list \<Rightarrow> 'i RankedHit list \<Rightarrow> 'i FusedHit list" where
  "fuse k structuralWeight semanticWeight structural semantic =
     sort_hits (map (\<lambda>c. \<lparr>fid = c,
                           combined = combined_score k structuralWeight semanticWeight
                                        structural semantic c,
                           semanticRaw = raw_of c semantic\<rparr>)
                  (candidates structural semantic))"

text \<open>Hits of the structural and of the semantic list, for the example scenario.\<close>

definition hitS :: "string \<Rightarrow> rat \<Rightarrow> string RankedHit" where
  "hitS e s = \<lparr>entity = e, rawScore = s, source = Structural, rerankScore = None\<rparr>"
definition hitM :: "string \<Rightarrow> rat \<Rightarrow> string RankedHit" where
  "hitM e s = \<lparr>entity = e, rawScore = s, source = Semantic, rerankScore = None\<rparr>"

section \<open>Project manager\<close>

text \<open>Truthiness of a JavaScript value.\<close>

fun truthy_js :: "jsval \<Rightarrow> bool" where
  "truthy_js JUndefined = False"
| "truthy_js JNull = False"
| "truthy_js (JBool b) = b"
| "truthy_js (JNum n) = (n \<noteq> 0)"
| "truthy_js (JStr s) = (s \<noteq> [])"
| "truthy_js (JArr _) = True"
| "truthy_js (JObj _) = True"

text \<open>
  The tables that \<^verbatim>\<open>ProjectManager\<close> reads and writes, as lists of rows. \<^verbatim>\<open>NULL\<close> is
  \<open>None\<close>. For \<^verbatim>\<open>entities\<close> and \<^verbatim>\<open>files\<close> only the columns named in the statements of
  \<^verbatim>\<open>removeRepository\<close> are spelled out; the others are one field.
\<close>

record project_row =
  row_id :: string
  row_name :: string
  row_description :: "string option"
  row_created_at :: int
  row_updated_at :: int
  row_metadata :: "string option"

record repository_row =
  repo_id :: string
  repo_project_id :: string
  repo_repository_path :: string
  repo_repository_name :: string
  repo_added_at :: int
  repo_last_indexed :: "int option"
  repo_metadata :: "string option"

record 'x entity_row =
  entity_project_id :: "string option"
  entity_file_path :: string
  entity_columns :: 'x

record 'y file_row =
  file_project_id :: "string option"
  file_path :: string
  file_columns :: 'y

record ('x, 'y) database =
  projects :: "project_row list"
  project_repositories :: "repository_row list"
  entities :: "'x entity_row list"
  files :: "'y file_row list"

text \<open>The \<^verbatim>\<open>Project\<close> object and \<^verbatim>\<open>UpdateProjectInput\<close>; \<open>None\<close> is \<^verbatim>\<open>undefined\<close>
  (for the description of a \<^verbatim>\<open>Project\<close> read from a row, \<^verbatim>\<open>null\<close>).\<close>

record Project =
  proj_id :: string
  proj_name :: string
  proj_description :: "string option"
  proj_created_at :: int
  proj_updated_at :: int
  proj_metadata :: "jsval option"

record UpdateProjectInput =
  in_name :: "string option"
  in_description :: "string option"
  in_metadata :: "jsval option"

datatype db_error = JSON_SyntaxError

text \<open>
  \<^verbatim>\<open>getProject(projectId)\<close>: the first row with that id. \<^verbatim>\<open>JSON.parse\<close> is the parameter
  \<open>parse\<close>, \<open>None\<close> where it throws.
\<close>

definition getProject ::
  "(string \<Rightarrow> jsval option) \<Rightarrow> ('x, 'y) database \<Rightarrow> string \<Rightarrow> db_error + Project option" where
  "getProject parse db projectId =
     (case find (\<lambda>r. row_id r = projectId) (projects db) of
        None \<Rightarrow> Inr None
      | Some row \<Rightarrow>
          (case (if truthy_str (row_metadata row)
                 then (case row_metadata row of
                         Some s \<Rightarrow> (case parse s of None \<Rightarrow> Inl JSON_SyntaxError
                                                    | Some m \<Rightarrow> Inr (Some m))
                       | None \<Rightarrow> Inr None)
                 else Inr None) of
             Inl e \<Rightarrow> Inl e
           | Inr md \<Rightarrow>
               Inr (Some \<lparr>proj_id = row_id row, proj_name = row_name row,
                          proj_description = row_description row,
                          proj_created_at = row_created_at row,
                          proj_updated_at = row_updated_at row,
                          proj_metadata = md\<rparr>)))"

text \<open>
  \<^verbatim>\<open>updateProject(projectId, input)\<close>; \<open>now\<close> is \<^verbatim>\<open>Date.now()\<close>, \<open>stringify\<close> is
  \<^verbatim>\<open>JSON.stringify\<close>. The \<^verbatim>\<open>UPDATE\<close> statement sets name, description, metadata and
  updated_at of the rows with that id.
\<close>

definition updateProject ::
  "(string \<Rightarrow> jsval option) \<Rightarrow> (jsval \<Rightarrow> string) \<Rightarrow> ('x, 'y) database \<Rightarrow> string \<Rightarrow>
     UpdateProjectInput \<Rightarrow> int \<Rightarrow> (db_error + Project option) \<times> ('x, 'y) database" where
  "updateProject parse stringify db projectId input now =
     (case getProject parse db projectId of
        Inl e \<Rightarrow> (Inl e, db)
      | Inr None \<Rightarrow> (Inr None, db)
      | Inr (Some existing) \<Rightarrow>
          let updated = existing
                \<lparr>proj_name := (case in_name input of Some n \<Rightarrow> n | None \<Rightarrow> proj_name existing),
                 proj_description := (case in_description input of
                                        Some d \<Rightarrow> Some d | None \<Rightarrow> proj_description existing),
                 proj_metadata := (case in_metadata input of
                                     Some m \<Rightarrow> Some m | None \<Rightarrow> proj_metadata existing),
                 proj_updated_at := now\<rparr>
          in (Inr (Some updated),
              db\<lparr>projects :=
                   map (\<lambda>r. if row_id r = projectId
                             then r\<lparr>row_name := proj_name updated,
                                    row_description :=
                                      (if truthy_str (proj_description updated)
                                       then proj_description updated else None),
                                    row_metadata :=
                                      (case proj_metadata updated of
                                         Some m \<Rightarrow> if truthy_js m then Some (stringify m) else None
                                       | None \<Rightarrow> None),
                                    row_updated_at := proj_updated_at updated\<rparr>
                             else r)
                       (projects db)\<rparr>))"

text \<open>
  The \<^verbatim>\<open>LIKE\<close> operator of SQLite without \<^verbatim>\<open>ESCAPE\<close>: \<^verbatim>\<open>%\<close> matches any sequence of
  characters, \<^verbatim>\<open>_\<close> any single character, any other character itself, ASCII letters
  without regard to case. The first argument is the pattern.
\<close>

definition ascii_lower :: "char \<Rightarrow> char" where
  "ascii_lower c =
     (if 65 \<le> (of_char c :: nat) \<and> (of_char c :: nat) \<le> 90
      then char_of ((of_char c :: nat) + 32) else c)"

fun sql_like :: "string \<Rightarrow> string \<Rightarrow> bool" where
  "sql_like [] [] = True"
| "sql_like [] (c # s) = False"
| "sql_like (p # ps) [] = (p = CHR ''%'' \<and> sql_like ps [])"
| "sql_like (p # ps) (c # s) =
     (if p = CHR ''%'' then sql_like ps (c # s) \<or> sql_like (p # ps) s
      else if p = CHR ''_'' then sql_like ps s
      else ascii_lower p = ascii_lower c \<and> sql_like ps s)"

text \<open>
  SQLite refuses a \<^verbatim>\<open>LIKE\<close> pattern of more than 50000 bytes
  (\<^verbatim>\<open>SQLITE_MAX_LIKE_PATTERN_LENGTH\<close>): evaluating the operator then raises "LIKE or GLOB
  pattern too complex", and better-sqlite3 throws.
\<close>

datatype sqlite_error = Like_pattern_too_complex

definition max_like_pattern_length :: nat where
  "max_like_pattern_length = 50000"

text \<open>
  The statement \<^verbatim>\<open>DELETE FROM t WHERE project_id = ? AND <path column> LIKE ?\<close> on the rows
  of a table. The operator is evaluated on the rows whose \<^verbatim>\<open>project_id\<close> equals the
  parameter, so the statement fails when the pattern is too long and there is such a row;
  a failing statement changes nothing.
\<close>

definition delete_where_like ::
  "('r \<Rightarrow> string option) \<Rightarrow> ('r \<Rightarrow> string) \<Rightarrow> string \<Rightarrow> string \<Rightarrow> 'r list \<Rightarrow>
     sqlite_error + 'r list" where
  "delete_where_like project_id_of path_of project_id pattern rows =
     (if max_like_pattern_length < length pattern
         \<and> list_ex (\<lambda>r. project_id_of r = Some project_id) rows
      then Inl Like_pattern_too_complex
      else Inr (filter (\<lambda>r. \<not> (project_id_of r = Some project_id
                                \<and> sql_like pattern (path_of r))) rows))"

text \<open>
  \<^verbatim>\<open>removeRepository(repositoryId)\<close>: \<open>changes\<close> is the number of rows that the first
  \<^verbatim>\<open>DELETE\<close> removed. The statements run one after the other outside a transaction, so
  when a later one throws, the earlier deletions stay; \<open>Inl\<close> is the exception thrown.
\<close>

definition removeRepository ::
  "('x, 'y) database \<Rightarrow> string \<Rightarrow> (sqlite_error + bool) \<times> ('x, 'y) database" where
  "removeRepository db repositoryId =
     (case find (\<lambda>r. repo_id r = repositoryId) (project_repositories db) of
        None \<Rightarrow> (Inr False, db)
      | Some repo \<Rightarrow>
          let kept = filter (\<lambda>r. repo_id r \<noteq> repositoryId) (project_repositories db);
              changes = length (project_repositories db) - length kept;
              db1 = db\<lparr>project_repositories := kept\<rparr>
          in if changes > 0 then
               (case delete_where_like entity_project_id entity_file_path
                       (repo_project_id repo) (repo_repository_path repo @ ''%'')
                       (entities db1) of
                  Inl e \<Rightarrow> (Inl e, db1)
                | Inr es \<Rightarrow>
                    let db2 = db1\<lparr>entities := es\<rparr> in
                    (case delete_where_like file_project_id file_path
                            (repo_project_id repo) (repo_repository_path repo @ ''%'')
                            (files db2) of
                       Inl e \<Rightarrow> (Inl e, db2)
                     | Inr fs \<Rightarrow> (Inr True, db2\<lparr>files := fs\<rparr>)))
             else (Inr False, db1))"

text \<open>
  A project row as \<^verbatim>\<open>createProject\<close> and \<^verbatim>\<open>updateProject\<close> write it: the description is
  \<^verbatim>\<open>NULL\<close> or a non-empty string (\<^verbatim>\<open>description || null\<close>), the metadata is \<^verbatim>\<open>NULL\<close> or the
  JSON text of a truthy value that \<^verbatim>\<open>JSON.parse\<close> and \<^verbatim>\<open>JSON.stringify\<close> reproduce.
\<close>

definition well_stored :: "(string \<Rightarrow> jsval option) \<Rightarrow> (jsval \<Rightarrow> string) \<Rightarrow> project_row \<Rightarrow> bool" where
  "well_stored parse stringify row =
     (row_description row \<noteq> Some []
      \<and> (case row_metadata row of
            None \<Rightarrow> True
          | Some s \<Rightarrow> s \<noteq> [] \<and> (case parse s of
                                   None \<Rightarrow> False
                                 | Some m \<Rightarrow> truthy_js m \<and> stringify m = s)))"

text \<open>A value whose JSON text is not empty and parses back to a value of the same text.\<close>

definition json_roundtrip :: "(string \<Rightarrow> jsval option) \<Rightarrow> (jsval \<Rightarrow> string) \<Rightarrow> jsval \<Rightarrow> bool" where
  "json_roundtrip parse stringify m =
     (stringify m \<noteq> []
      \<and> (case parse (stringify m) of
            None \<Rightarrow> False
          | Some m' \<Rightarrow> truthy_js m' \<and> stringify m' = stringify m))"

text \<open>\<^verbatim>\<open>createProject(input)\<close>; \<open>new_id\<close> is \<^verbatim>\<open>nanoid()\<close>.\<close>

definition createProject ::
  "(jsval \<Rightarrow> string) \<Rightarrow> ('x, 'y) database \<Rightarrow> string \<Rightarrow> string \<Rightarrow> string option \<Rightarrow> jsval option \<Rightarrow>
     int \<Rightarrow> Project \<times> ('x, 'y) database" where
  "createProject stringify db new_id nm descr md now =
     (let project = \<lparr>proj_id = new_id, proj_name = nm, proj_description = descr,
                     proj_created_at = now, proj_updated_at = now, proj_metadata = md\<rparr>
      in (project,
          db\<lparr>projects := projects db @
               [\<lparr>row_id = proj_id project, row_name = proj_name project,
                 row_description = (if truthy_str (proj_description project)
                                    then proj_description project else None),
                 row_created_at = proj_created_at project,
                 row_updated_at = proj_updated_at project,
                 row_metadata = (case proj_metadata project of
                                   Some m \<Rightarrow> if truthy_js m then Some (stringify m) else None
                                 | None \<Rightarrow> None)\<rparr>]\<rparr>))"

text \<open>
  A small store for the examples: one project with one repository, two entities and two
  files, and a \<^verbatim>\<open>JSON\<close> that knows the empty object only.
\<close>

definition demo_parse :: "string \<Rightarrow> jsval option" where
  "demo_parse s = (if s = ''{}'' then Some (JObj []) else None)"

definition demo_stringify :: "jsval \<Rightarrow> string" where
  "demo_stringify m = ''{}''"

definition demo_db :: "(unit, unit) database" where
  "demo_db =
     \<lparr>projects = [\<lparr>row_id = ''p1'', row_name = ''shop'', row_description = Some ''web shop'',
                   row_created_at = 100, row_updated_at = 100, row_metadata = Some ''{}''\<rparr>],
      project_repositories =
        [\<lparr>repo_id = ''r1'', repo_project_id = ''p1'', repo_repository_path = ''/src/app'',
          repo_repository_name = ''app'', repo_added_at = 101, repo_last_indexed = None,
          repo_metadata = None\<rparr>],
      entities =
        [\<lparr>entity_project_id = Some ''p1'', entity_file_path = ''/src/app/a.ts'',
          entity_columns = ()\<rparr>,
         \<lparr>entity_project_id = Some ''p1'', entity_file_path = ''/src/lib/b.ts'',
          entity_columns = ()\<rparr>],
      files =
        [\<lparr>file_project_id = Some ''p1'', file_path = ''/src/app/a.ts'', file_columns = ()\<rparr>,
         \<lparr>file_project_id = Some ''p2'', file_path = ''/src/app/a.ts'', file_columns = ()\<rparr>]\<rparr>"

text \<open>
  A store whose only repository has a path of 50000 bytes, with one entity and one file
  of its project under that path.
\<close>

definition long_path :: string where
  "long_path = replicate 50000 (CHR ''a'')"

definition long_path_db :: "(unit, unit) database" where
  "long_path_db =
     \<lparr>projects = [],
      project_repositories =
        [\<lparr>repo_id = ''r1'', repo_project_id = ''p1'', repo_repository_path = long_path,
          repo_repository_name = ''app'', repo_added_at = 101, repo_last_indexed = None,
          repo_metadata = None\<rparr>],
      entities =
        [\<lparr>entity_project_id = Some ''p1'', entity_file_path = long_path @ ''/a.ts'',
          entity_columns = ()\<rparr>],
      files =
        [\<lparr>file_project_id = Some ''p1'', file_path = long_path @ ''/a.ts'',
          file_columns = ()\<rparr>]\<rparr>"

section \<open>Theorems\<close>

text \<open>
  C6. \<^verbatim>\<open>getModelLimits\<close> returns (2000, 1000, 300000) for "rerank-2" and "rerank-2-lite",
  (2000, 1000, 100000) for "rerank-1", (1000, 1000, 300000) for "rerank-lite-1", and the
  conservative defaults (1000, 1000, 100000) for every other model name.
\<close>

theorem getModelLimits_table:
  "getModelLimits ''rerank-2'' =
     \<lparr>maxQueryTokens = 2000, maxDocuments = 1000, maxTotalTokens = 300000\<rparr>
   \<and> getModelLimits ''rerank-2-lite'' =
     \<lparr>maxQueryTokens = 2000, maxDocuments = 1000, maxTotalTokens = 300000\<rparr>
   \<and> getModelLimits ''rerank-1'' =
     \<lparr>maxQueryTokens = 2000, maxDocuments = 1000, maxTotalTokens = 100000\<rparr>
   \<and> getModelLimits ''rerank-lite-1'' =
     \<lparr>maxQueryTokens = 1000, maxDocuments = 1000, maxTotalTokens = 300000\<rparr>
   \<and> (m \<notin> {''rerank-2'', ''rerank-2-lite'', ''rerank-1'', ''rerank-lite-1''} \<longrightarrow>
        getModelLimits m =
          \<lparr>maxQueryTokens = 1000, maxDocuments = 1000, maxTotalTokens = 100000\<rparr>)"
  by (simp add: getModelLimits_def)

theorem getModelLimits_table_witness:
  "''voyage-code-3'' \<notin> {''rerank-2'', ''rerank-2-lite'', ''rerank-1'', ''rerank-lite-1''}
   \<and> getModelLimits ''voyage-code-3'' =
        \<lparr>maxQueryTokens = 1000, maxDocuments = 1000, maxTotalTokens = 100000\<rparr>"
  using getModelLimits_table [of "''voyage-code-3''"] by simp

subsection \<open>Parsing a tool result\<close>

lemma parseToolResult_returns: "\<exists>v. parseToolResult parse result = Inr v"
  by (simp add: parseToolResult_def split: sum.splits)

lemma parseToolResult_valid:
  assumes "parse [] = None"
    and "content result = c # cs" and "item_text c = Some t" and "parse t = Some v"
  shows "parseToolResult parse result = Inr v"
proof -
  from assms have "t \<noteq> []" by auto
  with assms show ?thesis
    by (simp add: parseToolResult_def parseToolResult_try_def)
qed

lemma parseToolResult_empty:
  assumes "content result = [] \<or> (\<exists>c cs. content result = c # cs \<and> \<not> truthy_str (item_text c))"
  shows "parseToolResult parse result =
      Inr (JObj [(''success'', JBool False), (''error'', JStr ''Empty response from tool'')])"
  using assms
  by (auto simp: parseToolResult_def parseToolResult_try_def)

lemma parseToolResult_unparseable:
  assumes "content result = c # cs" and "item_text c = Some t" and "t \<noteq> []"
    and "parse t = None"
  shows "parseToolResult parse result =
      Inr (JObj [(''success'', JBool False), (''error'', JStr ''Failed to parse tool response'')])"
  using assms
  by (simp add: parseToolResult_def parseToolResult_try_def)

text \<open>
  C8. \<^verbatim>\<open>parseToolResult\<close> is total: for every tool execution result it returns a value and
  never throws. It returns the JSON-parsed value of \<^verbatim>\<open>result.content[0].text\<close> when that text
  exists and is valid JSON; otherwise it returns \<^verbatim>\<open>{ success: false, error: <message> }\<close>: for
  an empty content array or a missing (or empty) text with the message "Empty response from
  tool", for unparseable JSON with "Failed to parse tool response". The empty string is not
  valid JSON (\<^verbatim>\<open>JSON.parse("")\<close> throws), which is the hypothesis on the parser.
\<close>

theorem parseToolResult_total:
  assumes "parse [] = None"
  shows "(\<exists>v. parseToolResult parse result = Inr v)
    \<and> (\<forall>c cs t v. content result = c # cs \<and> item_text c = Some t \<and> parse t = Some v \<longrightarrow>
          parseToolResult parse result = Inr v)
    \<and> (content result = [] \<longrightarrow>
          parseToolResult parse result =
              Inr (JObj [(''success'', JBool False), (''error'', JStr ''Empty response from tool'')]))
    \<and> (\<forall>c cs. content result = c # cs \<and> item_text c = None \<longrightarrow>
          parseToolResult parse result =
              Inr (JObj [(''success'', JBool False), (''error'', JStr ''Empty response from tool'')]))
    \<and> (\<forall>c cs t. content result = c # cs \<and> item_text c = Some t \<and> parse t = None \<longrightarrow>
          (\<exists>msg. parseToolResult parse result =
              Inr (JObj [(''success'', JBool False), (''error'', JStr msg)])
             \<and> msg = (if t = [] then ''Empty response from tool''
                       else ''Failed to parse tool response'')))"
proof (intro conjI allI impI)
  show "\<exists>v. parseToolResult parse result = Inr v"
    by (rule parseToolResult_returns)
next
  fix c cs t v
  assume "content result = c # cs \<and> item_text c = Some t \<and> parse t = Some v"
  with assms show "parseToolResult parse result = Inr v"
    by (blast intro: parseToolResult_valid)
next
  assume "content result = []"
  then show "parseToolResult parse result =
      Inr (JObj [(''success'', JBool False), (''error'', JStr ''Empty response from tool'')])"
    by (simp add: parseToolResult_empty)
next
  fix c cs
  assume "content result = c # cs \<and> item_text c = None"
  then show "parseToolResult parse result =
      Inr (JObj [(''success'', JBool False), (''error'', JStr ''Empty response from tool'')])"
    by (intro parseToolResult_empty) auto
next
  fix c cs t
  assume h: "content result = c # cs \<and> item_text c = Some t \<and> parse t = None"
  show "\<exists>msg. parseToolResult parse result =
      Inr (JObj [(''success'', JBool False), (''error'', JStr msg)])
          \<and> msg = (if t = [] then ''Empty response from tool''
                    else ''Failed to parse tool response'')"
  proof (cases "t = []")
    case True
    with h have "parseToolResult parse result =
        Inr (JObj [(''success'', JBool False), (''error'', JStr ''Empty response from tool'')])"
      by (intro parseToolResult_empty) auto
    with True show ?thesis by simp
  next
    case False
    with h have "parseToolResult parse result
                   =
                      Inr (JObj [(''success'', JBool False), (''error'', JStr ''Failed to parse tool response'')])"
      by (intro parseToolResult_unparseable [of result c cs t]) auto
    with False show ?thesis by simp
  qed
qed

text \<open>
  An instance, with a parser that accepts exactly the text \<^verbatim>\<open>true\<close>.
\<close>

theorem parseToolResult_total_witness:
  "(\<lambda>s. if s = ''true'' then Some (JBool True) else None) [] = None
   \<and> parseToolResult (\<lambda>s. if s = ''true'' then Some (JBool True) else None)
        \<lparr>content = [\<lparr>item_type = ''text'', item_text = Some ''true''\<rparr>]\<rparr> = Inr (JBool True)
   \<and> parseToolResult (\<lambda>s. if s = ''true'' then Some (JBool True) else None)
        \<lparr>content = []\<rparr> =
            Inr (JObj [(''success'', JBool False), (''error'', JStr ''Empty response from tool'')])
   \<and> parseToolResult (\<lambda>s. if s = ''true'' then Some (JBool True) else None)
        \<lparr>content = [\<lparr>item_type = ''text'', item_text = Some ''{bad''\<rparr>]\<rparr>
        =
           Inr (JObj [(''success'', JBool False), (''error'', JStr ''Failed to parse tool response'')])"
proof -
  let ?p = "\<lambda>s. if s = ''true'' then Some (JBool True) else None"
  have h: "?p [] = None" by simp
  have a: "parseToolResult ?p \<lparr>content = [\<lparr>item_type = ''text'', item_text = Some ''true''\<rparr>]\<rparr>
             = Inr (JBool True)"
    using parseToolResult_total
        [of ?p "\<lparr>content = [\<lparr>item_type = ''text'', item_text = Some ''true''\<rparr>]\<rparr>"]
    by simp
  have b: "parseToolResult ?p \<lparr>content = []\<rparr> =
      Inr (JObj [(''success'', JBool False), (''error'', JStr ''Empty response from tool'')])"
    using parseToolResult_total [of ?p "\<lparr>content = []\<rparr>"] by simp
  have c: "parseToolResult ?p \<lparr>content = [\<lparr>item_type = ''text'', item_text = Some ''{bad''\<rparr>]\<rparr>
             =
                Inr (JObj [(''success'', JBool False), (''error'', JStr ''Failed to parse tool response'')])"
    using parseToolResult_total
        [of ?p "\<lparr>content = [\<lparr>item_type = ''text'', item_text = Some ''{bad''\<rparr>]\<rparr>"]
    by simp
  from h a b c show ?thesis by blast
qed

subsection \<open>The error middleware\<close>

lemma errorHandler_AgentBusy:
  "\<not> headersSent ctx \<Longrightarrow>
   errorHandler env (AgentBusyError m stk det) ctx =
     Some \<lparr>status = 503,
           body = \<lparr>message = m, code = ''AGENT_BUSY'',
                   details = (if det \<noteq> JUndefined then Some det else None),
                   requestId =
                     (if truthy_str (or_str (locals_requestId ctx) (header_x_request_id ctx))
                      then or_str (locals_requestId ctx) (header_x_request_id ctx)
                      else None)\<rparr>\<rparr>"
  by (simp add: errorHandler_def formatErrorResponse_def)

lemma errorHandler_HttpError:
  "\<not> headersSent ctx \<Longrightarrow>
   errorHandler env (HttpError st m (Some c) det stk) ctx =
     Some \<lparr>status = st,
           body = \<lparr>message = m, code = (if c \<noteq> [] then c else ''HttpError''),
                   details = (if det \<noteq> JUndefined then Some det else None),
                   requestId =
                     (if truthy_str (or_str (locals_requestId ctx) (header_x_request_id ctx))
                      then or_str (locals_requestId ctx) (header_x_request_id ctx)
                      else None)\<rparr>\<rparr>"
  by (simp add: errorHandler_def formatErrorResponse_def)

lemma errorHandler_responds:
  "\<not> headersSent ctx \<Longrightarrow> \<exists>resp. errorHandler env err ctx = Some resp"
  by (cases err) (simp_all add: errorHandler_def Let_def)

lemma formatErrorResponse_code_nonempty:
  "nm \<noteq> [] \<Longrightarrow> code (formatErrorResponse msg cd nm det rid) \<noteq> []"
  by (cases cd) (simp_all add: formatErrorResponse_def)

lemma errorHandler_code_nonempty:
  assumes "errorHandler env err ctx = Some resp"
  shows "code (body resp) \<noteq> []"
proof (cases err)
  case (AgentBusyError m stk det)
  with assms show ?thesis
    by (auto simp: errorHandler_def formatErrorResponse_code_nonempty split: if_splits)
next
  case (HttpError st m cd det stk)
  with assms show ?thesis
    by (auto simp: errorHandler_def formatErrorResponse_code_nonempty split: if_splits)
next
  case (OtherError nm m stk st cd det errs)
  with assms show ?thesis
    by (auto simp: errorHandler_def Let_def formatErrorResponse_code_nonempty
        split: if_splits)
qed

lemma errorHandler_requestId:
  assumes "errorHandler env err ctx = Some resp"
    and "or_str (locals_requestId ctx) (header_x_request_id ctx) = Some rid" and "rid \<noteq> []"
  shows "requestId (body resp) = Some rid"
proof (cases err)
  case (AgentBusyError m stk det)
  with assms show ?thesis
    by (auto simp: errorHandler_def formatErrorResponse_def split: if_splits)
next
  case (HttpError st m cd det stk)
  with assms show ?thesis
    by (auto simp: errorHandler_def formatErrorResponse_def split: if_splits)
next
  case (OtherError nm m stk st cd det errs)
  with assms show ?thesis
    by (auto simp: errorHandler_def Let_def formatErrorResponse_def split: if_splits)
qed

lemma errorHandler_no_requestId:
  assumes "errorHandler env err ctx = Some resp"
    and "locals_requestId ctx = None" and "header_x_request_id ctx = None"
  shows "requestId (body resp) = None"
proof (cases err)
  case (AgentBusyError m stk det)
  with assms show ?thesis
    by (auto simp: errorHandler_def formatErrorResponse_def or_str_def split: if_splits)
next
  case (HttpError st m cd det stk)
  with assms show ?thesis
    by (auto simp: errorHandler_def formatErrorResponse_def or_str_def split: if_splits)
next
  case (OtherError nm m stk st cd det errs)
  with assms show ?thesis
    by (auto simp: errorHandler_def Let_def formatErrorResponse_def or_str_def
        split: if_splits)
qed

text \<open>
  The response does not depend on the stack of the error in production mode, nor for an
  error that one of the specific branches handles.
\<close>

lemma errorHandler_stack_independent:
  assumes "env = Some ''production'' \<or> \<not> default_branch err"
  shows "errorHandler env (set_stack s err) ctx = errorHandler env err ctx"
proof (cases err)
  case (AgentBusyError m stk det)
  then show ?thesis by (simp add: errorHandler_def)
next
  case (HttpError st m cd det stk)
  then show ?thesis by (simp add: errorHandler_def)
next
  case (OtherError nm m stk st cd det errs)
  with assms show ?thesis
    by (auto simp: errorHandler_def Let_def)
qed

lemma errorHandler_message:
  assumes "errorHandler env err ctx = Some resp"
  shows "message (body resp) \<in> {err_message err, ''Internal server error'', ''Validation failed''}"
proof (cases err)
  case (AgentBusyError m stk det)
  with assms show ?thesis
    by (auto simp: errorHandler_def Let_def formatErrorResponse_def split: if_splits)
next
  case (HttpError st m cd det stk)
  with assms show ?thesis
    by (auto simp: errorHandler_def Let_def formatErrorResponse_def split: if_splits)
next
  case (OtherError nm m stk st cd det errs)
  with assms show ?thesis
    by (auto simp: errorHandler_def Let_def formatErrorResponse_def split: if_splits)
qed

lemma errorHandler_dev_details:
  assumes "errorHandler env err ctx = Some resp"
    and "env \<noteq> Some ''production''" and "default_branch err"
  shows "details (body resp) =
           Some (JObj [(''stack'', (case err_stack err of None \<Rightarrow> JUndefined | Some s \<Rightarrow> JStr s)),
                       (''originalMessage'', JStr (err_message err))])"
proof (cases err)
  case (AgentBusyError m stk det)
  with assms(3) show ?thesis by simp
next
  case (HttpError st m cd det stk)
  with assms(3) show ?thesis by simp
next
  case (OtherError nm m stk st cd det errs)
  with assms show ?thesis
    by (auto simp: errorHandler_def Let_def formatErrorResponse_def split: if_splits)
qed

text \<open>
  C5, as the code has it. Whenever the handler writes a response (the headers were not
  sent yet), the body carries a message (the error's own, or one of the two fixed texts)
  and a non-empty code; it carries the request id whenever one is available, that is when
  \<^verbatim>\<open>res.locals.requestId || req.headers["x-request-id"]\<close> is a non-empty string; and in
  production mode, or for an error handled by one of the specific branches, the response is
  the same whatever the stack of the error is. Outside production mode, an error of the
  default branch is answered with the details \<^verbatim>\<open>{ stack, originalMessage }\<close>.
\<close>

theorem errorHandler_response_shape:
  assumes "\<not> headersSent ctx"
  shows "\<exists>resp. errorHandler env err ctx = Some resp
    \<and> message (body resp) \<in> {err_message err, ''Internal server error'', ''Validation failed''}
    \<and> code (body resp) \<noteq> []
    \<and> (\<forall>rid. or_str (locals_requestId ctx) (header_x_request_id ctx) = Some rid \<and> rid \<noteq> []
          \<longrightarrow> requestId (body resp) = Some rid)
    \<and> (env = Some ''production'' \<or> \<not> default_branch err
          \<longrightarrow> (\<forall>s. errorHandler env (set_stack s err) ctx = Some resp))
    \<and> (env \<noteq> Some ''production'' \<and> default_branch err
          \<longrightarrow> details (body resp) =
                Some (JObj [(''stack'',
                             (case err_stack err of None \<Rightarrow> JUndefined | Some s \<Rightarrow> JStr s)),
                            (''originalMessage'', JStr (err_message err))]))"
proof -
  from assms obtain resp where r: "errorHandler env err ctx = Some resp"
    using errorHandler_responds by blast
  have "message (body resp) \<in> {err_message err, ''Internal server error'', ''Validation failed''}"
    using r by (rule errorHandler_message)
  moreover have "code (body resp) \<noteq> []"
    using r by (rule errorHandler_code_nonempty)
  moreover have "\<forall>rid. or_str (locals_requestId ctx) (header_x_request_id ctx) = Some rid
      \<and> rid \<noteq> [] \<longrightarrow> requestId (body resp) = Some rid"
    using r errorHandler_requestId by blast
  moreover have "env = Some ''production'' \<or> \<not> default_branch err
      \<longrightarrow> (\<forall>s. errorHandler env (set_stack s err) ctx = Some resp)"
    using r errorHandler_stack_independent by simp
  moreover have "env \<noteq> Some ''production'' \<and> default_branch err
      \<longrightarrow> details (body resp) =
            Some (JObj [(''stack'',
                         (case err_stack err of None \<Rightarrow> JUndefined | Some s \<Rightarrow> JStr s)),
                        (''originalMessage'', JStr (err_message err))])"
    using r errorHandler_dev_details by blast
  ultimately show ?thesis using r by blast
qed

theorem errorHandler_response_shape_witness:
  "\<not> headersSent \<lparr>header_x_request_id = Some ''req-7'', headersSent = False,
                   locals_requestId = None\<rparr>
   \<and> errorHandler (Some ''production'')
        (set_stack (Some ''Error: boom at run (worker.js:10:3)'')
           (OtherError ''Error'' ''boom'' None None None JUndefined JUndefined))
        \<lparr>header_x_request_id = Some ''req-7'', headersSent = False, locals_requestId = None\<rparr>
      = Some \<lparr>status = 500,
              body = \<lparr>message = ''Internal server error'', code = ''Error'', details = None,
                      requestId = Some ''req-7''\<rparr>\<rparr>"
proof -
  let ?ctx = "\<lparr>header_x_request_id = Some ''req-7'', headersSent = False,
                locals_requestId = None\<rparr>"
  let ?err = "OtherError ''Error'' ''boom'' None None None JUndefined JUndefined"
  have h: "\<not> headersSent ?ctx" by simp
  have e: "errorHandler (Some ''production'') ?err ?ctx
      = Some \<lparr>status = 500,
              body = \<lparr>message = ''Internal server error'', code = ''Error'', details = None,
                      requestId = Some ''req-7''\<rparr>\<rparr>"
    by (simp add: errorHandler_def formatErrorResponse_def or_str_def)
  from errorHandler_response_shape [OF h, of "Some ''production''" ?err] e
  have "errorHandler (Some ''production'')
          (set_stack (Some ''Error: boom at run (worker.js:10:3)'') ?err) ?ctx
        = errorHandler (Some ''production'') ?err ?ctx"
    by auto
  with h e show ?thesis by simp
qed

text \<open>
  C5 as stated fails outside production mode: an unknown error is answered with its stack
  in \<^verbatim>\<open>details\<close>, and without a request id when the request carried none.
\<close>

theorem errorHandler_dev_stack_counterexample:
  "errorHandler (Some ''development'')
     (OtherError ''Error'' ''boom'' (Some ''Error: boom at run (worker.js:10:3)'') None None
        JUndefined JUndefined)
     \<lparr>header_x_request_id = None, headersSent = False, locals_requestId = None\<rparr>
   = Some \<lparr>status = 500,
           body = \<lparr>message = ''boom'', code = ''Error'',
                   details = Some (JObj [(''stack'', JStr ''Error: boom at run (worker.js:10:3)''),
                                         (''originalMessage'', JStr ''boom'')]),
                   requestId = None\<rparr>\<rparr>"
  by (simp add: errorHandler_def formatErrorResponse_def or_str_def)

subsection \<open>Backpressure\<close>

text \<open>
  C1. For a worker whose in-flight count equals its concurrency limit, one more submission
  is rejected with \<^verbatim>\<open>AgentBusyError\<close> carrying the worker name and the current load; the
  rejection leaves the in-flight count of that worker (and of every other worker) as it
  was; and the error middleware answers an \<^verbatim>\<open>AgentBusyError\<close> with status 503 and code
  \<^verbatim>\<open>AGENT_BUSY\<close>.
\<close>

theorem conductor_backpressure:
  assumes "registry operationName = Some w" and "workers w = Some ws"
    and "inFlight ws = concurrencyLimit ws"
    and "\<not> headersSent ctx"
  shows "(\<exists>workers'. submit registry worker workers operationName args
            = (Inl (AgentBusy w (concurrencyLimit ws)), workers')
          \<and> inFlightOf workers' w = Some (inFlight ws)
          \<and> (\<forall>v. inFlightOf workers' v = inFlightOf workers v))
    \<and> (\<exists>resp. errorHandler env (AgentBusyError m stk det) ctx = Some resp
          \<and> status resp = 503 \<and> code (body resp) = ''AGENT_BUSY'')"
proof -
  let ?ws' = "workers(w \<mapsto> ws\<lparr>rejected := rejected ws + 1\<rparr>)"
  have "submit registry worker workers operationName args
          = (Inl (AgentBusy w (concurrencyLimit ws)), ?ws')"
    using assms(1-3) by (simp add: submit_def)
  moreover have "inFlightOf ?ws' w = Some (inFlight ws)"
    by (simp add: inFlightOf_def)
  moreover have "\<forall>v. inFlightOf ?ws' v = inFlightOf workers v"
    using assms(2) by (simp add: inFlightOf_def)
  ultimately have a: "\<exists>workers'. submit registry worker workers operationName args
            = (Inl (AgentBusy w (concurrencyLimit ws)), workers')
          \<and> inFlightOf workers' w = Some (inFlight ws)
          \<and> (\<forall>v. inFlightOf workers' v = inFlightOf workers v)"
    by blast
  have b: "\<exists>resp. errorHandler env (AgentBusyError m stk det) ctx = Some resp
          \<and> status resp = 503 \<and> code (body resp) = ''AGENT_BUSY''"
    using errorHandler_AgentBusy [OF assms(4)] by simp
  from a b show ?thesis by blast
qed

text \<open>
  A conductor with one worker \<^verbatim>\<open>semantic\<close> of limit 2 that has two operations in flight.
\<close>

theorem conductor_backpressure_witness:
  "fst (submit [''semantic_search'' \<mapsto> ''semantic''] (\<lambda>w a. Inr a)
          [''semantic'' \<mapsto> \<lparr>inFlight = 2, concurrencyLimit = 2, accepted = 5, rejected = 0,
                             failed = 0\<rparr>]
          ''semantic_search'' (0::nat))
     = Inl (AgentBusy ''semantic'' 2)
   \<and> inFlightOf (snd (submit [''semantic_search'' \<mapsto> ''semantic''] (\<lambda>w a. Inr a)
          [''semantic'' \<mapsto> \<lparr>inFlight = 2, concurrencyLimit = 2, accepted = 5, rejected = 0,
                             failed = 0\<rparr>]
          ''semantic_search'' (0::nat))) ''semantic'' = Some 2
   \<and> map_option status (errorHandler None
         (AgentBusyError ''Agent semantic is busy'' None (JObj [(''load'', JNum 2)]))
         \<lparr>header_x_request_id = None, headersSent = False, locals_requestId = Some ''r1''\<rparr>)
     = Some 503
   \<and> map_option (code \<circ> body) (errorHandler None
         (AgentBusyError ''Agent semantic is busy'' None (JObj [(''load'', JNum 2)]))
         \<lparr>header_x_request_id = None, headersSent = False, locals_requestId = Some ''r1''\<rparr>)
     = Some ''AGENT_BUSY''"
proof -
  let ?reg = "[''semantic_search'' \<mapsto> ''semantic'']"
  let ?ws = "\<lparr>inFlight = 2, concurrencyLimit = 2, accepted = 5, rejected = 0, failed = 0\<rparr>"
  let ?workers = "[''semantic'' \<mapsto> ?ws]"
  let ?ctx = "\<lparr>header_x_request_id = None, headersSent = False, locals_requestId = Some ''r1''\<rparr>"
  have h1: "?reg ''semantic_search'' = Some ''semantic''" by simp
  have h2: "?workers ''semantic'' = Some ?ws" by simp
  have h3: "inFlight ?ws = concurrencyLimit ?ws" by simp
  have h4: "\<not> headersSent ?ctx" by simp
  from h1 h2 h3 h4
    conductor_backpressure [where registry = ?reg and workers = ?workers and ws = ?ws
      and w = "''semantic''" and operationName = "''semantic_search''" and ctx = ?ctx
      and worker = "\<lambda>w a. Inr a" and args = "0::nat" and env = None
      and m = "''Agent semantic is busy''" and stk = None
      and det = "JObj [(''load'', JNum 2)]"]
  show ?thesis by auto
qed

subsection \<open>Body validation\<close>

lemma validateBody_ZodError:
  "schema (req_body req) = Throws_ZodError issues \<Longrightarrow>
   validateBody stk schema req =
     Next_error (HttpError 400 ''Validation failed'' (Some ''VALIDATION_ERROR'')
                   (JObj [(''errors'', issues)]) stk)"
  by (simp add: validateBody_def)

lemma validateBody_Parsed:
  "schema (req_body req) = Parsed b \<Longrightarrow> validateBody stk schema req = Next (req\<lparr>req_body := b\<rparr>)"
  by (simp add: validateBody_def)

text \<open>
  C7. When the schema rejects the body (it throws a \<^verbatim>\<open>ZodError\<close> with its issues), the
  middleware passes on an \<^verbatim>\<open>HttpError\<close> of status 400 and code \<^verbatim>\<open>VALIDATION_ERROR\<close> whose
  details are the issues of the schema; the route handler is not invoked, whatever it is;
  and the error middleware answers with status 400, code \<^verbatim>\<open>VALIDATION_ERROR\<close> and those
  details. When the schema accepts the body, the handler runs on the request whose body is
  the parsed value. A \<^verbatim>\<open>ZodError\<close> that reaches the error middleware unwrapped is
  answered with status 400 and code \<^verbatim>\<open>VALIDATION_ERROR\<close> too, its issues as details.
\<close>

theorem validateBody_rejects_or_replaces:
  "(schema (req_body req) = Throws_ZodError issues \<longrightarrow>
      validateBody stk schema req =
        Next_error (HttpError 400 ''Validation failed'' (Some ''VALIDATION_ERROR'')
                      (JObj [(''errors'', issues)]) stk)
      \<and> (\<exists>resp. \<forall>handler::'b request \<Rightarrow> 'r.
            validated_route env stk schema handler req = Rejected resp)
      \<and> (\<not> headersSent (req_ctx req) \<longrightarrow>
            (\<exists>resp. validated_route env stk schema (handler::'b request \<Rightarrow> 'r) req
                      = Rejected (Some resp)
               \<and> status resp = 400 \<and> code (body resp) = ''VALIDATION_ERROR''
               \<and> message (body resp) = ''Validation failed''
               \<and> details (body resp) = Some (JObj [(''errors'', issues)]))))
   \<and> (schema (req_body req) = Parsed b \<longrightarrow>
        validateBody stk schema req = Next (req\<lparr>req_body := b\<rparr>)
        \<and> validated_route env stk schema handler req = Handled (handler (req\<lparr>req_body := b\<rparr>)))
   \<and> (\<not> headersSent ctx \<longrightarrow>
        (\<exists>resp. errorHandler env (OtherError ''ZodError'' m zstk st cd det issues) ctx = Some resp
           \<and> status resp = 400 \<and> code (body resp) = ''VALIDATION_ERROR''
           \<and> message (body resp) = ''Validation failed''
           \<and> details (body resp) = (if issues \<noteq> JUndefined then Some issues else None)))"
proof (intro conjI impI)
  assume z: "schema (req_body req) = Throws_ZodError issues"
  then show "validateBody stk schema req =
        Next_error (HttpError 400 ''Validation failed'' (Some ''VALIDATION_ERROR'')
                      (JObj [(''errors'', issues)]) stk)"
    by (rule validateBody_ZodError)
  from z show "\<exists>resp. \<forall>handler::'b request \<Rightarrow> 'r.
      validated_route env stk schema handler req = Rejected resp"
    by (simp add: validated_route_def validateBody_ZodError)
  assume "\<not> headersSent (req_ctx req)"
  with z show "\<exists>resp. validated_route env stk schema handler req = Rejected (Some resp)
               \<and> status resp = 400 \<and> code (body resp) = ''VALIDATION_ERROR''
               \<and> message (body resp) = ''Validation failed''
               \<and> details (body resp) = Some (JObj [(''errors'', issues)])"
    by (simp add: validated_route_def validateBody_ZodError errorHandler_HttpError)
next
  assume "schema (req_body req) = Parsed b"
  then show "validateBody stk schema req = Next (req\<lparr>req_body := b\<rparr>)"
    and "validated_route env stk schema handler req = Handled (handler (req\<lparr>req_body := b\<rparr>))"
    by (simp_all add: validated_route_def validateBody_Parsed)
next
  assume "\<not> headersSent ctx"
  then show "\<exists>resp. errorHandler env (OtherError ''ZodError'' m zstk st cd det issues) ctx = Some resp
           \<and> status resp = 400 \<and> code (body resp) = ''VALIDATION_ERROR''
           \<and> message (body resp) = ''Validation failed''
           \<and> details (body resp) = (if issues \<noteq> JUndefined then Some issues else None)"
    by (simp add: errorHandler_def)
qed

text \<open>
  An instance, with a schema on bodies that are an optional number: a missing number is
  replaced by the default 10, the number 0 is rejected with one issue.
\<close>

theorem validateBody_rejects_or_replaces_witness:
  "validated_route None None
     (\<lambda>b. case b of None \<Rightarrow> Parsed (Some 10)
                   | Some n \<Rightarrow> if n = (0::nat) then Throws_ZodError (JArr [JStr ''limit: too small''])
                              else Parsed (Some n))
     (\<lambda>r. req_body r)
     \<lparr>req_body = Some 0,
      req_ctx = \<lparr>header_x_request_id = None, headersSent = False, locals_requestId = Some ''r1''\<rparr>\<rparr>
   = Rejected (Some \<lparr>status = 400,
                     body = \<lparr>message = ''Validation failed'', code = ''VALIDATION_ERROR'',
                             details = Some (JObj [(''errors'', JArr [JStr ''limit: too small''])]),
                             requestId = Some ''r1''\<rparr>\<rparr>)
   \<and> validated_route None None
     (\<lambda>b. case b of None \<Rightarrow> Parsed (Some 10)
                   | Some n \<Rightarrow> if n = (0::nat) then Throws_ZodError (JArr [JStr ''limit: too small''])
                              else Parsed (Some n))
     (\<lambda>r. req_body r)
     \<lparr>req_body = None,
      req_ctx = \<lparr>header_x_request_id = None, headersSent = False, locals_requestId = Some ''r1''\<rparr>\<rparr>
   = Handled (Some 10)"
proof -
  let ?schema = "\<lambda>b. case b of None \<Rightarrow> Parsed (Some 10)
                   | Some n \<Rightarrow> if n = (0::nat) then Throws_ZodError (JArr [JStr ''limit: too small''])
                              else Parsed (Some n)"
  let ?ctx = "\<lparr>header_x_request_id = None, headersSent = False, locals_requestId = Some ''r1''\<rparr>"
  let ?bad = "\<lparr>req_body = Some (0::nat), req_ctx = ?ctx\<rparr>"
  let ?good = "\<lparr>req_body = None :: nat option, req_ctx = ?ctx\<rparr>"
  let ?h = "\<lambda>r :: nat option request. req_body r"
  have z: "?schema (req_body ?bad) = Throws_ZodError (JArr [JStr ''limit: too small''])"
    by simp
  have nh: "\<not> headersSent (req_ctx ?bad)" by simp
  have p: "?schema (req_body ?good) = Parsed (Some 10)" by simp
  have rid: "errorHandler None
        (HttpError 400 ''Validation failed'' (Some ''VALIDATION_ERROR'')
           (JObj [(''errors'', JArr [JStr ''limit: too small''])]) None) ?ctx
      = Some \<lparr>status = 400,
               body = \<lparr>message = ''Validation failed'', code = ''VALIDATION_ERROR'',
                       details = Some (JObj [(''errors'', JArr [JStr ''limit: too small''])]),
                       requestId = Some ''r1''\<rparr>\<rparr>"
    by (simp add: errorHandler_def formatErrorResponse_def or_str_def)
  from z nh
    validateBody_rejects_or_replaces [where schema = ?schema and req = ?bad
      and issues = "JArr [JStr ''limit: too small'']" and stk = None and env = None
      and handler = ?h]
  have a: "validateBody None ?schema ?bad =
        Next_error (HttpError 400 ''Validation failed'' (Some ''VALIDATION_ERROR'')
                      (JObj [(''errors'', JArr [JStr ''limit: too small''])]) None)"
    by blast
  from p
    validateBody_rejects_or_replaces [where schema = ?schema and req = ?good
      and b = "Some 10" and stk = None and env = None and handler = ?h]
  have b: "validated_route None None ?schema ?h ?good = Handled (?h (?good\<lparr>req_body := Some 10\<rparr>))"
    by blast
  from a rid have "validated_route None None ?schema ?h ?bad
      = Rejected (Some \<lparr>status = 400,
               body = \<lparr>message = ''Validation failed'', code = ''VALIDATION_ERROR'',
                       details = Some (JObj [(''errors'', JArr [JStr ''limit: too small''])]),
                       requestId = Some ''r1''\<rparr>\<rparr>)"
    by (simp add: validated_route_def)
  with b show ?thesis by simp
qed


subsection \<open>Batch embedding\<close>


lemma chunk_loop_returns:
  assumes "0 < sz"
  shows "\<exists>cs. chunk_loop texts sz i acc = Some (acc @ cs) \<and> concat cs = drop i texts
           \<and> (\<forall>c \<in> set cs. c \<noteq> [] \<and> length c \<le> sz)"
proof (induction "length texts - i" arbitrary: i acc rule: less_induct)
  case less
  show ?case
  proof (cases "i < length texts")
    case False
    then show ?thesis
      by (subst chunk_loop.simps) simp
  next
    case True
    let ?c = "slice texts i (i + sz)"
    from True assms have "length texts - (i + sz) < length texts - i" by arith
    from less [OF this, of "acc @ [?c]"]
    obtain cs where cs: "chunk_loop texts sz (i + sz) (acc @ [?c]) = Some ((acc @ [?c]) @ cs)"
      "concat cs = drop (i + sz) texts" "\<forall>c \<in> set cs. c \<noteq> [] \<and> length c \<le> sz"
      by blast
    have c: "?c = take sz (drop i texts)" by (simp add: slice_def)
    have "take sz (drop i texts) @ drop (i + sz) texts = drop i texts"
      by (metis append_take_drop_id drop_drop add.commute)
    with cs(2) c have "concat (?c # cs) = drop i texts" by simp
    moreover from True assms c have "?c \<noteq> [] \<and> length ?c \<le> sz" by simp
    moreover have "chunk_loop texts sz i acc = Some (acc @ (?c # cs))"
      using True cs(1) by (subst chunk_loop.simps) simp
    ultimately show ?thesis using cs(3)
      by (intro exI [of _ "?c # cs"]) simp
  qed
qed









lemma embedBatch_fallback:
  assumes "length texts \<le> (case maxBatchSize of None \<Rightarrow> length texts | Some n \<Rightarrow> n)"
    and "callSingle request (Text_list texts) (parseBatch f) = Inl e"
  shows "embedBatch f request maxBatchSize texts = Some (callBatch request texts (parseSingle f))"
  using assms by (simp add: embedBatch_def Let_def)

lemma embedBatch_failure_in_chunks:
  assumes "0 < sz" and "sz < length texts"
    and "\<forall>c. request (Text_list c) = Inl msg"
  shows "embedBatch f request (Some sz) texts = Some (Inl (Request_failed msg))"
proof -
  from chunk_loop_returns [OF assms(1), of texts 0 "[]"]
  obtain chunks where ch: "chunk_loop texts sz 0 [] = Some chunks" "concat chunks = texts"
    by auto
  from assms(2) ch(2) obtain c cs where "chunks = c # cs"
    by (cases chunks) auto
  with assms(3) have "collect (map (\<lambda>c. callSingle request (Text_list c) (parseBatch f)) chunks)
      = Inl (Request_failed msg)"
    by (simp add: callSingle_def)
  with assms(2) ch(1) show ?thesis
    by (simp add: embedBatch_def)
qed


text \<open>
  C3. The fallback to element-wise calls is missing on the chunked path. With
  \<^verbatim>\<open>maxBatchSize = 2\<close> and three texts, a provider that rejects every batch request and
  answers every single-text request makes \<^verbatim>\<open>embedBatch\<close> reject with the batch failure;
  with \<^verbatim>\<open>maxBatchSize = 3\<close> the same provider and texts go through the unchunked path,
  which falls back to element-wise calls and returns the three vectors.
\<close>

theorem embedBatch_chunk_failure_surfaces:
  "embedBatch (\<lambda>e. case e of None \<Rightarrow> [] | Some n \<Rightarrow> [n])
     (\<lambda>i. case i of Text_list c \<Rightarrow> Inl ''429 rate limited''
                  | Single_text t \<Rightarrow> Inr (Json_data [Datum (Some (length t))]))
     (Some 2) [''a'', ''bb'', ''ccc'']
   = Some (Inl (Request_failed ''429 rate limited''))
   \<and> embedBatch (\<lambda>e. case e of None \<Rightarrow> [] | Some n \<Rightarrow> [n])
     (\<lambda>i. case i of Text_list c \<Rightarrow> Inl ''429 rate limited''
                  | Single_text t \<Rightarrow> Inr (Json_data [Datum (Some (length t))]))
     (Some 3) [''a'', ''bb'', ''ccc'']
   = Some (Inr [[1], [2], [3]])"
proof -
  let ?f = "\<lambda>e. case e of None \<Rightarrow> [] | Some n \<Rightarrow> [n::nat]"
  let ?req = "\<lambda>i. case i of Text_list c \<Rightarrow> Inl ''429 rate limited''
                  | Single_text t \<Rightarrow> Inr (Json_data [Datum (Some (length t))])"
  have "embedBatch ?f ?req (Some 2) [''a'', ''bb'', ''ccc'']
      = Some (Inl (Request_failed ''429 rate limited''))"
    by (rule embedBatch_failure_in_chunks) simp_all
  moreover have "embedBatch ?f ?req (Some 3) [''a'', ''bb'', ''ccc''] = Some (Inr [[1], [2], [3]])"
    by (simp add: embedBatch_def callSingle_def callBatch_def parseSingle_def)
  ultimately show ?thesis by simp
qed

subsection \<open>Reciprocal rank fusion\<close>

lemma before_total: "before a b \<or> before b a"
  unfolding before_def
  by (cases "semanticRaw a"; cases "semanticRaw b") auto

lemma sem_higher_trans: "sem_higher x y \<Longrightarrow> sem_higher y z \<Longrightarrow> sem_higher x z"
  by (cases x; cases y; cases z) auto

lemma sem_higher_irrefl: "\<not> sem_higher x x"
  by (cases x) auto

lemma before_trans: "before a b \<Longrightarrow> before b c \<Longrightarrow> before a c"
  unfolding before_def
  using sem_higher_trans [of "semanticRaw a" "semanticRaw b" "semanticRaw c"]
  by (auto simp: sem_higher_irrefl)

lemma set_insert_hit: "set (insert_hit x ys) = insert x (set ys)"
  by (induction ys) auto

lemma sorted_insert_hit: "sorted_wrt before ys \<Longrightarrow> sorted_wrt before (insert_hit x ys)"
proof (induction ys)
  case Nil
  then show ?case by simp
next
  case (Cons y ys)
  show ?case
  proof (cases "before x y")
    case True
    with Cons.prems show ?thesis by (auto intro: before_trans)
  next
    case False
    with before_total [of x y] have "before y x" by simp
    with False Cons show ?thesis by (auto simp: set_insert_hit)
  qed
qed

lemma sorted_sort_hits: "sorted_wrt before (sort_hits xs)"
  by (induction xs) (simp_all add: sorted_insert_hit)

lemma set_sort_hits: "set (sort_hits xs) = set xs"
  by (induction xs) (simp_all add: set_insert_hit)

lemma distinct_fid_insert_hit:
  "distinct (map fid (insert_hit x ys)) = (fid x \<notin> fid ` set ys \<and> distinct (map fid ys))"
  by (induction ys) (auto simp: set_insert_hit)

lemma distinct_fid_sort_hits: "distinct (map fid (sort_hits xs)) = distinct (map fid xs)"
  by (induction xs) (auto simp: distinct_fid_insert_hit set_sort_hits)

lemma rank_from_nth:
  "i < length hits \<Longrightarrow> entity (hits ! i) = c \<Longrightarrow> (\<forall>j < i. entity (hits ! j) \<noteq> c) \<Longrightarrow>
   rank_from r c hits = Some (r + i)"
proof (induction hits arbitrary: i r)
  case Nil
  then show ?case by simp
next
  case (Cons h hs)
  show ?case
  proof (cases i)
    case 0
    with Cons.prems show ?thesis by simp
  next
    case (Suc n)
    with Cons.prems have "entity h \<noteq> c" by auto
    moreover from Suc Cons.prems have "rank_from (Suc r) c hs = Some (Suc r + n)"
      by (intro Cons.IH) auto
    ultimately show ?thesis using Suc by simp
  qed
qed

lemma rank_from_absent: "c \<notin> entity ` set hits \<Longrightarrow> rank_from r c hits = None"
  by (induction hits arbitrary: r) auto

lemma sorted_wrt_before_neq:
  "sorted_wrt before xs \<Longrightarrow> distinct (map fid xs) \<Longrightarrow>
   sorted_wrt (\<lambda>a b. before a b \<and> fid a \<noteq> fid b) xs"
  by (induction xs) auto

lemma before_strict:
  "before a b \<Longrightarrow> fid a \<noteq> fid b \<Longrightarrow>
   combined b < combined a
      \<or> (combined a = combined b
          \<and> (sem_higher (semanticRaw a) (semanticRaw b)
              \<or> (semanticRaw a = semanticRaw b \<and> fid a < fid b)))"
  unfolding before_def by auto

lemma sorted_wrt_strict:
  assumes "sorted_wrt before xs" and "distinct (map fid xs)"
  shows "sorted_wrt (\<lambda>a b. combined b < combined a
      \<or> (combined a = combined b
          \<and> (sem_higher (semanticRaw a) (semanticRaw b)
              \<or> (semanticRaw a = semanticRaw b \<and> fid a < fid b)))) xs"
  by (rule sorted_wrt_mono_rel [OF _ sorted_wrt_before_neq [OF assms]])
     (simp add: before_strict)

lemma fuse_example:
  fixes w :: rat
  assumes "0 < w"
  shows "map fid (fuse 60 w w [hitS ''A'' a1, hitS ''B'' a2, hitS ''C'' a3]
                       [hitM ''B'' sB, hitM ''A'' sA, hitM ''D'' sD])
         = (if sA < sB then [''B'', ''A'', ''D'', ''C''] else [''A'', ''B'', ''D'', ''C''])"
    and "map combined (fuse 60 w w [hitS ''A'' a1, hitS ''B'' a2, hitS ''C'' a3]
                       [hitM ''B'' sB, hitM ''A'' sA, hitM ''D'' sD])
         = [w * (1 / 61) + w * (1 / 62), w * (1 / 61) + w * (1 / 62), w * (1 / 63), w * (1 / 63)]"
  using assms
  by (simp_all add: fuse_def candidates_def combined_score_def rank_of_def hitS_def hitM_def
      before_def)

lemma fuse_members:
  "set (fuse k ws wm structural semantic) =
     (\<lambda>c. \<lparr>fid = c, combined = combined_score k ws wm structural semantic c,
            semanticRaw = raw_of c semantic\<rparr>) ` (entity ` (set structural \<union> set semantic))"
  by (auto simp: fuse_def set_sort_hits candidates_def)

lemma fuse_distinct: "distinct (map fid (fuse k ws wm structural semantic))"
  by (simp add: fuse_def distinct_fid_sort_hits candidates_def comp_def)

text \<open>
  C2. \<^verbatim>\<open>fuse\<close> returns each candidate of the two lists once; the combined score of a
  candidate is the sum over the two lists of weight times \<open>1 / (k + r)\<close>, where \<open>r\<close> is its
  1-based rank in that list (a hit at index \<open>i\<close>, the first for its entity, has rank
  \<open>i + 1\<close>; a list without the candidate contributes 0); the result is sorted by combined
  score descending, ties broken by higher semantic raw score and then by entity id. In the
  scenario with structural hits A, B, C, semantic hits B, A, D, \<open>k = 60\<close> and equal positive
  weights, A and B have the same score, above that of C and D, and stand first: B before A
  when the semantic raw score of B is higher, else A before B (equal semantic scores are
  resolved by the id).
\<close>

theorem fuse_rrf_sorted:
  fixes structural semantic hits :: "('i::linorder) RankedHit list" and w :: rat
  shows "fid ` set (fuse k ws wm structural semantic) = entity ` (set structural \<union> set semantic)
    \<and> distinct (map fid (fuse k ws wm structural semantic))
    \<and> (\<forall>f \<in> set (fuse k ws wm structural semantic).
          combined f = ws * rrf k (rank_of (fid f) structural)
                       + wm * rrf k (rank_of (fid f) semantic)
          \<and> semanticRaw f = raw_of (fid f) semantic)
    \<and> (\<forall>c i. i < length hits \<and> entity (hits ! i) = c \<and> (\<forall>j < i. entity (hits ! j) \<noteq> c)
          \<longrightarrow> rrf k (rank_of c hits) = 1 / of_nat (k + (i + 1)))
    \<and> (\<forall>c. c \<notin> entity ` set hits \<longrightarrow> rrf k (rank_of c hits) = 0)
    \<and> sorted_wrt (\<lambda>a b. combined b < combined a
          \<or> (combined a = combined b
              \<and> (sem_higher (semanticRaw a) (semanticRaw b)
                  \<or> (semanticRaw a = semanticRaw b \<and> fid a < fid b))))
        (fuse k ws wm structural semantic)
    \<and> (0 < w \<longrightarrow>
         map fid (take 2 (fuse 60 w w [hitS ''A'' a1, hitS ''B'' a2, hitS ''C'' a3]
                                      [hitM ''B'' sB, hitM ''A'' sA, hitM ''D'' sD]))
           = (if sA < sB then [''B'', ''A''] else [''A'', ''B''])
         \<and> set (map fid (drop 2 (fuse 60 w w [hitS ''A'' a1, hitS ''B'' a2, hitS ''C'' a3]
                                      [hitM ''B'' sB, hitM ''A'' sA, hitM ''D'' sD])))
           = {''C'', ''D''}
         \<and> map combined (fuse 60 w w [hitS ''A'' a1, hitS ''B'' a2, hitS ''C'' a3]
                                      [hitM ''B'' sB, hitM ''A'' sA, hitM ''D'' sD])
           = [w * (1 / 61) + w * (1 / 62), w * (1 / 61) + w * (1 / 62),
              w * (1 / 63), w * (1 / 63)]
         \<and> w * (1 / 63) < w * (1 / 61) + w * (1 / 62))"
proof -
  let ?out = "fuse k ws wm structural semantic"
  have m: "fid ` set ?out = entity ` (set structural \<union> set semantic)"
    by (simp add: fuse_members image_image)
  have d: "distinct (map fid ?out)" by (rule fuse_distinct)
  have s: "\<forall>f \<in> set ?out.
          combined f = ws * rrf k (rank_of (fid f) structural)
                       + wm * rrf k (rank_of (fid f) semantic)
          \<and> semanticRaw f = raw_of (fid f) semantic"
    by (auto simp: fuse_members combined_score_def)
  have r1: "\<forall>c i. i < length hits \<and> entity (hits ! i) = c \<and> (\<forall>j < i. entity (hits ! j) \<noteq> c)
          \<longrightarrow> rrf k (rank_of c hits) = 1 / of_nat (k + (i + 1))"
  proof (intro allI impI)
    fix c i
    assume "i < length hits \<and> entity (hits ! i) = c \<and> (\<forall>j < i. entity (hits ! j) \<noteq> c)"
    then have "rank_from 1 c hits = Some (1 + i)"
      by (intro rank_from_nth) auto
    then show "rrf k (rank_of c hits) = 1 / of_nat (k + (i + 1))"
      by (simp add: rank_of_def add.commute)
  qed
  have r0: "\<forall>c. c \<notin> entity ` set hits \<longrightarrow> rrf k (rank_of c hits) = 0"
    by (simp add: rank_of_def rank_from_absent)
  have o: "sorted_wrt (\<lambda>a b. combined b < combined a
          \<or> (combined a = combined b
              \<and> (sem_higher (semanticRaw a) (semanticRaw b)
                  \<or> (semanticRaw a = semanticRaw b \<and> fid a < fid b)))) ?out"
    by (rule sorted_wrt_strict [OF _ d]) (simp add: fuse_def sorted_sort_hits)
  have e: "map fid (take 2 (fuse 60 w w [hitS ''A'' a1, hitS ''B'' a2, hitS ''C'' a3]
                                      [hitM ''B'' sB, hitM ''A'' sA, hitM ''D'' sD]))
           = (if sA < sB then [''B'', ''A''] else [''A'', ''B''])
         \<and> set (map fid (drop 2 (fuse 60 w w [hitS ''A'' a1, hitS ''B'' a2, hitS ''C'' a3]
                                      [hitM ''B'' sB, hitM ''A'' sA, hitM ''D'' sD])))
           = {''C'', ''D''}
         \<and> map combined (fuse 60 w w [hitS ''A'' a1, hitS ''B'' a2, hitS ''C'' a3]
                                      [hitM ''B'' sB, hitM ''A'' sA, hitM ''D'' sD])
           = [w * (1 / 61) + w * (1 / 62), w * (1 / 61) + w * (1 / 62),
              w * (1 / 63), w * (1 / 63)]
         \<and> w * (1 / 63) < w * (1 / 61) + w * (1 / 62)" if "0 < w"
  proof -
    let ?ex = "fuse 60 w w [hitS ''A'' a1, hitS ''B'' a2, hitS ''C'' a3]
                          [hitM ''B'' sB, hitM ''A'' sA, hitM ''D'' sD]"
    from fuse_example(1) [OF that, of a1 a2 a3 sB sA sD]
    have "map fid (take 2 ?ex) = (if sA < sB then [''B'', ''A''] else [''A'', ''B''])"
      and "set (map fid (drop 2 ?ex)) = {''C'', ''D''}"
      by (auto simp: take_map [symmetric] drop_map [symmetric] split: if_splits)
    moreover from that have "w * (1 / 63) < w * (1 / 61) + w * (1 / 62)" by simp
    ultimately show ?thesis using fuse_example(2) [OF that] by simp
  qed
  from m d s r1 r0 o e show ?thesis by blast
qed

theorem fuse_rrf_sorted_witness:
  "(0::rat) < 1
   \<and> map fid (take 2 (fuse 60 1 1 [hitS ''A'' 3, hitS ''B'' 2, hitS ''C'' 1]
                                [hitM ''B'' (9 / 10), hitM ''A'' (8 / 10), hitM ''D'' (7 / 10)]))
      = [''B'', ''A'']
   \<and> map combined (fuse 60 1 1 [hitS ''A'' 3, hitS ''B'' 2, hitS ''C'' 1]
                                [hitM ''B'' (9 / 10), hitM ''A'' (8 / 10), hitM ''D'' (7 / 10)])
      = [123 / 3782, 123 / 3782, 1 / 63, 1 / 63]"
proof -
  have h: "(0::rat) < 1" by simp
  from h fuse_rrf_sorted [where w = 1 and ?a1.0 = 3 and ?a2.0 = 2 and ?a3.0 = 1
      and sB = "9 / 10" and sA = "8 / 10" and sD = "7 / 10"
      and hits = "[] :: string RankedHit list"
      and structural = "[] :: string RankedHit list"
      and semantic = "[] :: string RankedHit list"]
  show ?thesis by simp
qed

subsection \<open>Project manager\<close>

lemma sql_like_percent_skip: "sql_like ps s \<Longrightarrow> sql_like (CHR ''%'' # ps) s"
  by (cases s) simp_all

lemma sql_like_percent_all: "sql_like ''%'' s"
  by (induction s) simp_all

lemma sql_like_prefix: "sql_like (p @ ''%'') (p @ rest)"
proof (induction p)
  case Nil
  show ?case using sql_like_percent_all by simp
next
  case (Cons a p)
  show ?case
  proof (cases "a = CHR ''%''")
    case True
    from Cons have "sql_like (CHR ''%'' # p @ ''%'') (p @ rest)"
      by (rule sql_like_percent_skip)
    with True show ?thesis by (simp add: less_Suc_eq_le)
  next
    case False
    with Cons show ?thesis by simp
  qed
qed

lemma find_filter_length:
  "find P xs = Some x \<Longrightarrow> length (filter (\<lambda>r. \<not> P r) xs) < length xs"
proof (induction xs)
  case Nil
  then show ?case by simp
next
  case (Cons y ys)
  show ?case
  proof (cases "P y")
    case True
    have "length (filter (\<lambda>r. \<not> P r) ys) \<le> length ys" by (rule length_filter_le)
    with True show ?thesis by (simp add: less_Suc_eq_le)
  next
    case False
    with Cons show ?thesis by simp
  qed
qed

lemma find_map_update:
  assumes "find (\<lambda>r. row_id r = k) rows = Some row"
    and "\<And>r. row_id (g r) = row_id r"
  shows "find (\<lambda>r. row_id r = k) (map (\<lambda>r. if row_id r = k then g r else r) rows) = Some (g row)"
  using assms(1)
proof (induction rows)
  case Nil
  then show ?case by simp
next
  case (Cons r rs)
  then show ?case by (cases "row_id r = k") (simp_all add: assms(2))
qed

lemma filter_map_other:
  "filter (\<lambda>r. row_id r \<noteq> k) (map (\<lambda>r. if row_id r = k then g r else r) rows)
     = filter (\<lambda>r. row_id r \<noteq> k) rows" if "\<And>r. row_id (g r) = row_id r"
  by (induction rows) (simp_all add: that)

lemma find_Some_id: "find (\<lambda>r. row_id r = k) rows = Some row \<Longrightarrow> row_id row = k"
  by (induction rows) (auto split: if_splits)

lemma getProject_well_stored:
  assumes "find (\<lambda>r. row_id r = projectId) (projects db) = Some row"
    and "well_stored parse stringify row"
  shows "\<exists>md. getProject parse db projectId =
           Inr (Some \<lparr>proj_id = row_id row, proj_name = row_name row,
                      proj_description = row_description row,
                      proj_created_at = row_created_at row,
                      proj_updated_at = row_updated_at row, proj_metadata = md\<rparr>)
         \<and> md = (case row_metadata row of None \<Rightarrow> None | Some s \<Rightarrow> parse s)
         \<and> (case md of None \<Rightarrow> row_metadata row = None
                      | Some m \<Rightarrow> truthy_js m \<and> row_metadata row = Some (stringify m))"
proof (cases "row_metadata row")
  case None
  with assms(1) show ?thesis by (simp add: getProject_def)
next
  case (Some s)
  with assms(2) obtain m where "s \<noteq> []" "parse s = Some m" "truthy_js m" "stringify m = s"
    by (auto simp: well_stored_def split: option.splits)
  with assms(1) Some show ?thesis by (simp add: getProject_def)
qed

lemma updateProject_missing:
  "find (\<lambda>r. row_id r = projectId) (projects db) = None \<Longrightarrow>
   updateProject parse stringify db projectId input now = (Inr None, db)"
  by (simp add: updateProject_def getProject_def)

lemma updateProject_existing:
  assumes f: "find (\<lambda>r. row_id r = projectId) (projects db) = Some row"
    and w: "well_stored parse stringify row"
  shows "\<exists>updated db' row'.
      updateProject parse stringify db projectId input now = (Inr (Some updated), db')
    \<and> find (\<lambda>r. row_id r = projectId) (projects db') = Some row'
    \<and> proj_id updated = projectId \<and> row_id row' = projectId
    \<and> proj_created_at updated = row_created_at row \<and> row_created_at row' = row_created_at row
    \<and> proj_updated_at updated = now \<and> row_updated_at row' = now
    \<and> (in_name input = None \<longrightarrow> proj_name updated = row_name row \<and> row_name row' = row_name row)
    \<and> (in_description input = None \<longrightarrow>
          proj_description updated = row_description row
          \<and> row_description row' = row_description row)
    \<and> (in_metadata input = None \<longrightarrow>
          proj_metadata updated = (case row_metadata row of None \<Rightarrow> None | Some s \<Rightarrow> parse s)
          \<and> row_metadata row' = row_metadata row)
    \<and> (\<forall>n. in_name input = Some n \<longrightarrow> proj_name updated = n \<and> row_name row' = n)
    \<and> filter (\<lambda>r. row_id r \<noteq> projectId) (projects db')
        = filter (\<lambda>r. row_id r \<noteq> projectId) (projects db)
    \<and> map row_id (projects db') = map row_id (projects db)
    \<and> map row_created_at (projects db') = map row_created_at (projects db)
    \<and> project_repositories db' = project_repositories db
    \<and> entities db' = entities db \<and> files db' = files db"
proof -
  from getProject_well_stored [OF f w] obtain md where
    g: "getProject parse db projectId =
           Inr (Some \<lparr>proj_id = row_id row, proj_name = row_name row,
                      proj_description = row_description row,
                      proj_created_at = row_created_at row,
                      proj_updated_at = row_updated_at row, proj_metadata = md\<rparr>)"
    and p: "md = (case row_metadata row of None \<Rightarrow> None | Some s \<Rightarrow> parse s)"
    and m: "case md of None \<Rightarrow> row_metadata row = None
                     | Some m \<Rightarrow> truthy_js m \<and> row_metadata row = Some (stringify m)"
    by blast
  from w have d: "truthy_str (row_description row) \<or> row_description row = None"
    by (cases "row_description row") (simp_all add: well_stored_def)
  let ?existing = "\<lparr>proj_id = row_id row, proj_name = row_name row,
                      proj_description = row_description row,
                      proj_created_at = row_created_at row,
                      proj_updated_at = row_updated_at row, proj_metadata = md\<rparr>"
  let ?updated = "?existing
                \<lparr>proj_name := (case in_name input of Some n \<Rightarrow> n | None \<Rightarrow> proj_name ?existing),
                 proj_description := (case in_description input of
                                        Some d \<Rightarrow> Some d | None \<Rightarrow> proj_description ?existing),
                 proj_metadata := (case in_metadata input of
                                     Some m \<Rightarrow> Some m | None \<Rightarrow> proj_metadata ?existing),
                 proj_updated_at := now\<rparr>"
  let ?g = "\<lambda>r. r\<lparr>row_name := proj_name ?updated,
                   row_description :=
                     (if truthy_str (proj_description ?updated)
                      then proj_description ?updated else None),
                   row_metadata :=
                     (case proj_metadata ?updated of
                        Some m \<Rightarrow> if truthy_js m then Some (stringify m) else None
                      | None \<Rightarrow> None),
                   row_updated_at := proj_updated_at ?updated\<rparr>"
  let ?db' = "db\<lparr>projects := map (\<lambda>r. if row_id r = projectId then ?g r else r) (projects db)\<rparr>"
  have u: "updateProject parse stringify db projectId input now = (Inr (Some ?updated), ?db')"
    by (simp add: updateProject_def g Let_def)
  have gid: "\<And>r. row_id (?g r) = row_id r" by simp
  have fr: "find (\<lambda>r. row_id r = projectId) (projects ?db') = Some (?g row)"
    using find_map_update [OF f, of ?g] by simp
  have oth: "filter (\<lambda>r. row_id r \<noteq> projectId) (projects ?db')
        = filter (\<lambda>r. row_id r \<noteq> projectId) (projects db)"
    using filter_map_other [of ?g projectId "projects db"] by simp
  have ids: "map row_id (projects ?db') = map row_id (projects db)"
    by (simp add: comp_def cong: map_cong)
  have cr: "map row_created_at (projects ?db') = map row_created_at (projects db)"
    by (simp add: comp_def cong: map_cong)
  have rid: "row_id row = projectId" using f by (rule find_Some_id)
  have dsc: "in_description input = None \<Longrightarrow> row_description (?g row) = row_description row"
    using d by auto
  have mt: "in_metadata input = None \<Longrightarrow> row_metadata (?g row) = row_metadata row"
    using m by (cases md) auto
  show ?thesis
    apply (rule exI [of _ ?updated], rule exI [of _ ?db'], rule exI [of _ "?g row"])
    apply (intro conjI impI allI)
    using u fr oth ids cr rid dsc mt p apply simp_all
    done
qed

text \<open>
  C9. For a project id without a row, \<^verbatim>\<open>updateProject\<close> returns \<^verbatim>\<open>null\<close> and leaves the store
  as it is. For an existing project (its row as the manager writes rows), the returned
  project and the stored row keep the id and \<^verbatim>\<open>created_at\<close>, have \<^verbatim>\<open>updated_at\<close> set to the
  call time, keep the previous value of each of name, description and metadata whose input
  is \<^verbatim>\<open>undefined\<close>, and take a supplied name; the rows of other projects, the ids and creation
  times of all rows, and the other tables are unchanged.
\<close>

theorem updateProject_frame:
  "(find (\<lambda>r. row_id r = projectId) (projects db) = None \<longrightarrow>
      updateProject parse stringify db projectId input now = (Inr None, db))
   \<and> (\<forall>row. find (\<lambda>r. row_id r = projectId) (projects db) = Some row
          \<and> well_stored parse stringify row \<longrightarrow>
        (\<exists>updated db' row'.
            updateProject parse stringify db projectId input now = (Inr (Some updated), db')
          \<and> find (\<lambda>r. row_id r = projectId) (projects db') = Some row'
          \<and> proj_id updated = projectId \<and> row_id row' = projectId
          \<and> proj_created_at updated = row_created_at row
          \<and> row_created_at row' = row_created_at row
          \<and> proj_updated_at updated = now \<and> row_updated_at row' = now
          \<and> (in_name input = None \<longrightarrow>
                proj_name updated = row_name row \<and> row_name row' = row_name row)
          \<and> (in_description input = None \<longrightarrow>
                proj_description updated = row_description row
                \<and> row_description row' = row_description row)
          \<and> (in_metadata input = None \<longrightarrow>
                proj_metadata updated
                  = (case row_metadata row of None \<Rightarrow> None | Some s \<Rightarrow> parse s)
                \<and> row_metadata row' = row_metadata row)
          \<and> (\<forall>n. in_name input = Some n \<longrightarrow> proj_name updated = n \<and> row_name row' = n)
          \<and> filter (\<lambda>r. row_id r \<noteq> projectId) (projects db')
              = filter (\<lambda>r. row_id r \<noteq> projectId) (projects db)
          \<and> map row_id (projects db') = map row_id (projects db)
          \<and> map row_created_at (projects db') = map row_created_at (projects db)
          \<and> project_repositories db' = project_repositories db
          \<and> entities db' = entities db \<and> files db' = files db))"
proof (intro conjI impI allI)
  assume "find (\<lambda>r. row_id r = projectId) (projects db) = None"
  then show "updateProject parse stringify db projectId input now = (Inr None, db)"
    by (rule updateProject_missing)
next
  fix row
  assume "find (\<lambda>r. row_id r = projectId) (projects db) = Some row
          \<and> well_stored parse stringify row"
  then have f: "find (\<lambda>r. row_id r = projectId) (projects db) = Some row"
    and w: "well_stored parse stringify row"
    by simp_all
  show "\<exists>updated db' row'.
            updateProject parse stringify db projectId input now = (Inr (Some updated), db')
          \<and> find (\<lambda>r. row_id r = projectId) (projects db') = Some row'
          \<and> proj_id updated = projectId \<and> row_id row' = projectId
          \<and> proj_created_at updated = row_created_at row
          \<and> row_created_at row' = row_created_at row
          \<and> proj_updated_at updated = now \<and> row_updated_at row' = now
          \<and> (in_name input = None \<longrightarrow>
                proj_name updated = row_name row \<and> row_name row' = row_name row)
          \<and> (in_description input = None \<longrightarrow>
                proj_description updated = row_description row
                \<and> row_description row' = row_description row)
          \<and> (in_metadata input = None \<longrightarrow>
                proj_metadata updated
                  = (case row_metadata row of None \<Rightarrow> None | Some s \<Rightarrow> parse s)
                \<and> row_metadata row' = row_metadata row)
          \<and> (\<forall>n. in_name input = Some n \<longrightarrow> proj_name updated = n \<and> row_name row' = n)
          \<and> filter (\<lambda>r. row_id r \<noteq> projectId) (projects db')
              = filter (\<lambda>r. row_id r \<noteq> projectId) (projects db)
          \<and> map row_id (projects db') = map row_id (projects db)
          \<and> map row_created_at (projects db') = map row_created_at (projects db)
          \<and> project_repositories db' = project_repositories db
          \<and> entities db' = entities db \<and> files db' = files db"
    by (rule updateProject_existing [OF f w])
qed

theorem updateProject_frame_witness:
  "\<exists>updated db' row'.
      updateProject demo_parse demo_stringify demo_db ''p1''
        \<lparr>in_name = Some ''store'', in_description = None, in_metadata = None\<rparr> 200
        = (Inr (Some updated), db')
    \<and> find (\<lambda>r. row_id r = ''p1'') (projects db') = Some row'
    \<and> proj_name updated = ''store'' \<and> row_name row' = ''store''
    \<and> row_description row' = Some ''web shop'' \<and> row_metadata row' = Some ''{}''
    \<and> row_created_at row' = 100 \<and> row_updated_at row' = 200"
proof -
  let ?row = "\<lparr>row_id = ''p1'', row_name = ''shop'', row_description = Some ''web shop'',
               row_created_at = 100, row_updated_at = 100, row_metadata = Some ''{}''\<rparr>"
  let ?inp = "\<lparr>in_name = Some ''store'', in_description = None, in_metadata = None\<rparr>"
  have f: "find (\<lambda>r. row_id r = ''p1'') (projects demo_db) = Some ?row"
    by (simp add: demo_db_def)
  have w: "well_stored demo_parse demo_stringify ?row"
    by (simp add: well_stored_def demo_parse_def demo_stringify_def)
  note t = updateProject_frame [where projectId = "''p1''" and db = demo_db
      and parse = demo_parse and stringify = demo_stringify and input = ?inp and now = 200,
      THEN conjunct2, THEN spec, of ?row, THEN mp, OF conjI [OF f w]]
  from t obtain updated db' row' where
    h: "updateProject demo_parse demo_stringify demo_db ''p1'' ?inp 200 = (Inr (Some updated), db')"
    "find (\<lambda>r. row_id r = ''p1'') (projects db') = Some row'"
    "row_created_at row' = row_created_at ?row" "row_updated_at row' = 200"
    "in_description ?inp = None \<longrightarrow> row_description row' = row_description ?row"
    "in_metadata ?inp = None \<longrightarrow> row_metadata row' = row_metadata ?row"
    "\<forall>n. in_name ?inp = Some n \<longrightarrow> proj_name updated = n \<and> row_name row' = n"
    by (elim exE conjE) (rule that, simp_all)
  then show ?thesis by simp
qed

text \<open>
  The pattern is the repository path followed by \<^verbatim>\<open>%\<close>, so a \<^verbatim>\<open>_\<close> or \<^verbatim>\<open>%\<close> in the path is
  a wildcard and letters match without regard to case: other paths can match as well.
\<close>

lemma sql_like_wildcard_example:
  "sql_like (''/src/my_app'' @ ''%'') ''/src/myXapp/a.ts''"
  by (simp add: ascii_lower_def)

lemma find_None_iff_id: "find (\<lambda>r. repo_id r = k) rows = None \<longleftrightarrow> k \<notin> repo_id ` set rows"
  by (induction rows) auto

lemma removeRepository_missing:
  "find (\<lambda>r. repo_id r = repositoryId) (project_repositories db) = None \<Longrightarrow>
   removeRepository db repositoryId = (Inr False, db)"
  by (simp add: removeRepository_def)

lemma find_repo_filter_length:
  "find (\<lambda>r. repo_id r = k) rows = Some x \<Longrightarrow>
   length (filter (\<lambda>r. repo_id r \<noteq> k) rows) < length rows"
  using find_filter_length [of "\<lambda>r. repo_id r = k" rows x] by simp

lemma delete_where_like_ok:
  assumes "length pattern \<le> max_like_pattern_length
           \<or> \<not> list_ex (\<lambda>r. project_id_of r = Some project_id) rows"
  shows "delete_where_like project_id_of path_of project_id pattern rows =
           Inr (filter (\<lambda>r. \<not> (project_id_of r = Some project_id
                                \<and> sql_like pattern (path_of r))) rows)"
  using assms by (auto simp: delete_where_like_def)

lemma delete_where_like_fails:
  assumes "max_like_pattern_length < length pattern"
    and "list_ex (\<lambda>r. project_id_of r = Some project_id) rows"
  shows "delete_where_like project_id_of path_of project_id pattern rows =
           Inl Like_pattern_too_complex"
  using assms by (simp add: delete_where_like_def)

lemma filter_no_project:
  "\<not> list_ex (\<lambda>r. project_id_of r = Some project_id) rows \<Longrightarrow>
   filter (\<lambda>r. \<not> (project_id_of r = Some project_id \<and> P r)) rows = rows"
  by (induction rows) auto

lemma list_ex_filter_other:
  "list_ex (\<lambda>r. project_id_of r = Some project_id)
     (filter (\<lambda>r. \<not> (project_id_of r = Some project_id \<and> P r)) rows)
   \<Longrightarrow> list_ex (\<lambda>r. project_id_of r = Some project_id) rows"
  by (induction rows) (auto split: if_splits)

text \<open>
  The outcomes for an existing repository: both clean-up statements run, or one of them
  throws, which happens when the path has 50000 bytes or more and the project has an
  \<^verbatim>\<open>entities\<close> or a \<^verbatim>\<open>files\<close> row.
\<close>

lemma removeRepository_existing:
  assumes f: "find (\<lambda>r. repo_id r = repositoryId) (project_repositories db) = Some repo"
    and ok: "length (repo_repository_path repo) < max_like_pattern_length
        \<or> (\<not> list_ex (\<lambda>e. entity_project_id e = Some (repo_project_id repo)) (entities db)
           \<and> \<not> list_ex (\<lambda>f. file_project_id f = Some (repo_project_id repo)) (files db))"
  shows "removeRepository db repositoryId =
     (Inr True,
      db\<lparr>project_repositories :=
            filter (\<lambda>r. repo_id r \<noteq> repositoryId) (project_repositories db),
         entities :=
            filter (\<lambda>e. \<not> (entity_project_id e = Some (repo_project_id repo)
                            \<and> sql_like (repo_repository_path repo @ ''%'') (entity_file_path e)))
              (entities db),
         files :=
            filter (\<lambda>f. \<not> (file_project_id f = Some (repo_project_id repo)
                            \<and> sql_like (repo_repository_path repo @ ''%'') (file_path f)))
              (files db)\<rparr>)"
proof -
  let ?pat = "repo_repository_path repo @ ''%''"
  from ok have e: "length ?pat \<le> max_like_pattern_length
      \<or> \<not> list_ex (\<lambda>e. entity_project_id e = Some (repo_project_id repo)) (entities db)"
    by auto
  from ok have fl: "length ?pat \<le> max_like_pattern_length
      \<or> \<not> list_ex (\<lambda>f. file_project_id f = Some (repo_project_id repo)) (files db)"
    by auto
  show ?thesis
    using f find_repo_filter_length [OF f]
      delete_where_like_ok [OF e, of entity_file_path]
      delete_where_like_ok [OF fl, of file_path]
    by (simp add: removeRepository_def Let_def)
qed

lemma removeRepository_throws:
  assumes f: "find (\<lambda>r. repo_id r = repositoryId) (project_repositories db) = Some repo"
    and long: "max_like_pattern_length \<le> length (repo_repository_path repo)"
    and rows: "list_ex (\<lambda>e. entity_project_id e = Some (repo_project_id repo)) (entities db)
        \<or> list_ex (\<lambda>f. file_project_id f = Some (repo_project_id repo)) (files db)"
  shows "removeRepository db repositoryId =
     (Inl Like_pattern_too_complex,
      db\<lparr>project_repositories :=
            filter (\<lambda>r. repo_id r \<noteq> repositoryId) (project_repositories db)\<rparr>)"
proof (cases "list_ex (\<lambda>e. entity_project_id e = Some (repo_project_id repo)) (entities db)")
  case True
  from long have "max_like_pattern_length < length (repo_repository_path repo @ ''%'')"
    by simp
  from delete_where_like_fails [OF this True, of entity_file_path]
  show ?thesis
    using f find_repo_filter_length [OF f]
    by (simp add: removeRepository_def Let_def)
next
  case False
  with rows have fr: "list_ex (\<lambda>f. file_project_id f = Some (repo_project_id repo)) (files db)"
    by simp
  from long have l: "max_like_pattern_length < length (repo_repository_path repo @ ''%'')"
    by simp
  have "delete_where_like entity_project_id entity_file_path (repo_project_id repo)
             (repo_repository_path repo @ ''%'') (entities db)
         = Inr (filter (\<lambda>r. \<not> (entity_project_id r = Some (repo_project_id repo)
                  \<and> sql_like (repo_repository_path repo @ ''%'') (entity_file_path r)))
                 (entities db))"
    by (rule delete_where_like_ok) (simp add: False)
  also have "filter (\<lambda>r. \<not> (entity_project_id r = Some (repo_project_id repo)
                  \<and> sql_like (repo_repository_path repo @ ''%'') (entity_file_path r)))
                 (entities db) = entities db"
    by (rule filter_no_project [OF False])
  finally have e: "delete_where_like entity_project_id entity_file_path (repo_project_id repo)
             (repo_repository_path repo @ ''%'') (entities db) = Inr (entities db)" .
  from delete_where_like_fails [OF l fr, of file_path] e
  show ?thesis
    using f find_repo_filter_length [OF f]
    by (simp add: removeRepository_def Let_def)
qed

text \<open>
  C10, as the code has it. \<^verbatim>\<open>removeRepository\<close> returns \<^verbatim>\<open>false\<close> and leaves the store
  unchanged when no repository row has the id. When one has, and its path is shorter than
  50000 bytes (or its project has no \<^verbatim>\<open>entities\<close> and no \<^verbatim>\<open>files\<close> row), it returns
  \<^verbatim>\<open>true\<close>, the rows with that id are gone from \<^verbatim>\<open>project_repositories\<close> and the others
  kept, and every \<^verbatim>\<open>entities\<close> row and every \<^verbatim>\<open>files\<close> row of the same project whose path
  begins with the repository path is deleted; rows of other projects are kept, no row is
  added, and \<^verbatim>\<open>projects\<close> is unchanged.
\<close>

theorem removeRepository_effect:
  "(repositoryId \<notin> repo_id ` set (project_repositories db) \<longrightarrow>
      removeRepository db repositoryId = (Inr False, db))
   \<and> (\<forall>repo. find (\<lambda>r. repo_id r = repositoryId) (project_repositories db) = Some repo
         \<and> (length (repo_repository_path repo) < 50000
            \<or> (\<not> list_ex (\<lambda>e. entity_project_id e = Some (repo_project_id repo)) (entities db)
               \<and> \<not> list_ex (\<lambda>f. file_project_id f = Some (repo_project_id repo)) (files db)))
       \<longrightarrow>
        (\<exists>db'. removeRepository db repositoryId = (Inr True, db')
           \<and> project_repositories db'
               = filter (\<lambda>r. repo_id r \<noteq> repositoryId) (project_repositories db)
           \<and> repositoryId \<notin> repo_id ` set (project_repositories db')
           \<and> (\<forall>e \<in> set (entities db).
                 entity_project_id e = Some (repo_project_id repo)
                 \<and> (\<exists>rest. entity_file_path e = repo_repository_path repo @ rest)
                 \<longrightarrow> e \<notin> set (entities db'))
           \<and> (\<forall>f \<in> set (files db).
                 file_project_id f = Some (repo_project_id repo)
                 \<and> (\<exists>rest. file_path f = repo_repository_path repo @ rest)
                 \<longrightarrow> f \<notin> set (files db'))
           \<and> (\<forall>e \<in> set (entities db).
                 entity_project_id e \<noteq> Some (repo_project_id repo) \<longrightarrow> e \<in> set (entities db'))
           \<and> (\<forall>f \<in> set (files db).
                 file_project_id f \<noteq> Some (repo_project_id repo) \<longrightarrow> f \<in> set (files db'))
           \<and> set (entities db') \<subseteq> set (entities db) \<and> set (files db') \<subseteq> set (files db)
           \<and> projects db' = projects db))"
proof (intro conjI impI allI)
  assume "repositoryId \<notin> repo_id ` set (project_repositories db)"
  then show "removeRepository db repositoryId = (Inr False, db)"
    by (simp add: removeRepository_missing find_None_iff_id)
next
  fix repo
  assume h: "find (\<lambda>r. repo_id r = repositoryId) (project_repositories db) = Some repo
         \<and> (length (repo_repository_path repo) < 50000
            \<or> (\<not> list_ex (\<lambda>e. entity_project_id e = Some (repo_project_id repo)) (entities db)
               \<and> \<not> list_ex (\<lambda>f. file_project_id f = Some (repo_project_id repo)) (files db)))"
  then have f: "find (\<lambda>r. repo_id r = repositoryId) (project_repositories db) = Some repo"
    by simp
  from h have ok: "length (repo_repository_path repo) < max_like_pattern_length
        \<or> (\<not> list_ex (\<lambda>e. entity_project_id e = Some (repo_project_id repo)) (entities db)
           \<and> \<not> list_ex (\<lambda>f. file_project_id f = Some (repo_project_id repo)) (files db))"
    by (simp add: max_like_pattern_length_def)
  let ?db' = "db\<lparr>project_repositories :=
            filter (\<lambda>r. repo_id r \<noteq> repositoryId) (project_repositories db),
         entities :=
            filter (\<lambda>e. \<not> (entity_project_id e = Some (repo_project_id repo)
                            \<and> sql_like (repo_repository_path repo @ ''%'') (entity_file_path e)))
              (entities db),
         files :=
            filter (\<lambda>f. \<not> (file_project_id f = Some (repo_project_id repo)
                            \<and> sql_like (repo_repository_path repo @ ''%'') (file_path f)))
              (files db)\<rparr>"
  have r: "removeRepository db repositoryId = (Inr True, ?db')"
    by (rule removeRepository_existing [OF f ok])
  have e: "\<forall>e \<in> set (entities db).
                 entity_project_id e = Some (repo_project_id repo)
                 \<and> (\<exists>rest. entity_file_path e = repo_repository_path repo @ rest)
                 \<longrightarrow> e \<notin> set (entities ?db')"
    by (auto simp: sql_like_prefix)
  have fl: "\<forall>f \<in> set (files db).
                 file_project_id f = Some (repo_project_id repo)
                 \<and> (\<exists>rest. file_path f = repo_repository_path repo @ rest)
                 \<longrightarrow> f \<notin> set (files ?db')"
    by (auto simp: sql_like_prefix)
  show "\<exists>db'. removeRepository db repositoryId = (Inr True, db')
           \<and> project_repositories db'
               = filter (\<lambda>r. repo_id r \<noteq> repositoryId) (project_repositories db)
           \<and> repositoryId \<notin> repo_id ` set (project_repositories db')
           \<and> (\<forall>e \<in> set (entities db).
                 entity_project_id e = Some (repo_project_id repo)
                 \<and> (\<exists>rest. entity_file_path e = repo_repository_path repo @ rest)
                 \<longrightarrow> e \<notin> set (entities db'))
           \<and> (\<forall>f \<in> set (files db).
                 file_project_id f = Some (repo_project_id repo)
                 \<and> (\<exists>rest. file_path f = repo_repository_path repo @ rest)
                 \<longrightarrow> f \<notin> set (files db'))
           \<and> (\<forall>e \<in> set (entities db).
                 entity_project_id e \<noteq> Some (repo_project_id repo) \<longrightarrow> e \<in> set (entities db'))
           \<and> (\<forall>f \<in> set (files db).
                 file_project_id f \<noteq> Some (repo_project_id repo) \<longrightarrow> f \<in> set (files db'))
           \<and> set (entities db') \<subseteq> set (entities db) \<and> set (files db') \<subseteq> set (files db)
           \<and> projects db' = projects db"
    apply (rule exI [of _ ?db'])
    apply (intro conjI)
    using r e fl apply simp_all
    apply auto
    done
qed

theorem removeRepository_effect_witness:
  "removeRepository demo_db ''r9'' = (Inr False, demo_db)
   \<and> fst (removeRepository demo_db ''r1'') = Inr True
   \<and> project_repositories (snd (removeRepository demo_db ''r1'')) = []
   \<and> \<lparr>entity_project_id = Some ''p1'', entity_file_path = ''/src/app/a.ts'', entity_columns = ()\<rparr>
        \<notin> set (entities (snd (removeRepository demo_db ''r1'')))
   \<and> \<lparr>entity_project_id = Some ''p1'', entity_file_path = ''/src/lib/b.ts'', entity_columns = ()\<rparr>
        \<in> set (entities (snd (removeRepository demo_db ''r1'')))"
proof -
  let ?repo = "\<lparr>repo_id = ''r1'', repo_project_id = ''p1'', repo_repository_path = ''/src/app'',
          repo_repository_name = ''app'', repo_added_at = 101, repo_last_indexed = None,
          repo_metadata = None\<rparr>"
  let ?a = "\<lparr>entity_project_id = Some ''p1'', entity_file_path = ''/src/app/a.ts'',
             entity_columns = ()\<rparr>"
  have n: "''r9'' \<notin> repo_id ` set (project_repositories demo_db)"
    by (simp add: demo_db_def)
  have f: "find (\<lambda>r. repo_id r = ''r1'') (project_repositories demo_db) = Some ?repo"
    by (simp add: demo_db_def)
  have l: "length (repo_repository_path ?repo) < 50000" by simp
  have m: "?a \<in> set (entities demo_db)" by (simp add: demo_db_def)
  have pa: "entity_project_id ?a = Some (repo_project_id ?repo)
      \<and> (\<exists>rest. entity_file_path ?a = repo_repository_path ?repo @ rest)"
    by simp
  from n removeRepository_effect [of "''r9''" demo_db]
  have a: "removeRepository demo_db ''r9'' = (Inr False, demo_db)" by blast
  from f l removeRepository_effect [of "''r1''" demo_db]
  obtain db' where d: "removeRepository demo_db ''r1'' = (Inr True, db')"
    and k: "project_repositories db'
              = filter (\<lambda>r. repo_id r \<noteq> ''r1'') (project_repositories demo_db)"
    and g: "\<forall>e \<in> set (entities demo_db).
                 entity_project_id e = Some (repo_project_id ?repo)
                 \<and> (\<exists>rest. entity_file_path e = repo_repository_path ?repo @ rest)
                 \<longrightarrow> e \<notin> set (entities db')"
    by blast
  from g m pa have gone: "?a \<notin> set (entities db')" by blast
  have kept: "\<lparr>entity_project_id = Some ''p1'', entity_file_path = ''/src/lib/b.ts'',
               entity_columns = ()\<rparr> \<in> set (entities (snd (removeRepository demo_db ''r1'')))"
    by (simp add: removeRepository_existing [OF f disjI1,
            OF l [unfolded max_like_pattern_length_def [symmetric]]])
       (simp add: demo_db_def ascii_lower_def)
  from a d k gone kept show ?thesis by (simp add: demo_db_def)
qed

text \<open>
  C10 as stated fails for a repository path of 50000 bytes: the pattern has 50001 bytes,
  the first clean-up statement throws, the repository row is already deleted, and the
  rows under the path stay.
\<close>

theorem removeRepository_long_path_counterexample:
  "fst (removeRepository long_path_db ''r1'') = Inl Like_pattern_too_complex
   \<and> project_repositories (snd (removeRepository long_path_db ''r1'')) = []
   \<and> entities (snd (removeRepository long_path_db ''r1'')) = entities long_path_db
   \<and> files (snd (removeRepository long_path_db ''r1'')) = files long_path_db
   \<and> entities long_path_db
       = [\<lparr>entity_project_id = Some ''p1'', entity_file_path = long_path @ ''/a.ts'',
           entity_columns = ()\<rparr>]"
  by (simp add: removeRepository_def delete_where_like_def max_like_pattern_length_def
      long_path_db_def long_path_def Let_def)

lemma well_stored_written:
  assumes "case md of None \<Rightarrow> True | Some m \<Rightarrow> truthy_js m \<longrightarrow> json_roundtrip parse stringify m"
  shows "well_stored parse stringify
           (r\<lparr>row_name := n,
              row_description := (if truthy_str d then d else None),
              row_metadata := (case md of
                                 Some m \<Rightarrow> if truthy_js m then Some (stringify m) else None
                               | None \<Rightarrow> None),
              row_updated_at := t\<rparr>)"
  using assms
  by (cases d; cases md) (auto simp: well_stored_def json_roundtrip_def split: option.splits)

lemma createProject_well_stored:
  assumes a: "\<forall>r \<in> set (projects db). well_stored parse stringify r"
    and j: "case md of None \<Rightarrow> True | Some m \<Rightarrow> truthy_js m \<longrightarrow> json_roundtrip parse stringify m"
  shows "\<forall>r \<in> set (projects (snd (createProject stringify db new_id nm descr md now))).
           well_stored parse stringify r"
proof -
  let ?row = "\<lparr>row_id = new_id, row_name = nm,
               row_description = (if truthy_str descr then descr else None),
               row_created_at = now, row_updated_at = now,
               row_metadata = (case md of
                                 Some m \<Rightarrow> if truthy_js m then Some (stringify m) else None
                               | None \<Rightarrow> None)\<rparr>"
  have new: "well_stored parse stringify ?row"
    using j
    by (cases descr; cases md)
       (auto simp: well_stored_def json_roundtrip_def split: option.splits)
  have p: "projects (snd (createProject stringify db new_id nm descr md now))
             = projects db @ [?row]"
    by (simp add: createProject_def Let_def)
  show ?thesis unfolding p using a new by auto
qed

lemma updateProject_well_stored:
  assumes a: "\<forall>r \<in> set (projects db). well_stored parse stringify r"
    and j: "case in_metadata input of None \<Rightarrow> True
            | Some m \<Rightarrow> truthy_js m \<longrightarrow> json_roundtrip parse stringify m"
  shows "\<forall>r \<in> set (projects (snd (updateProject parse stringify db projectId input now))).
           well_stored parse stringify r"
proof (cases "find (\<lambda>r. row_id r = projectId) (projects db)")
  case None
  with a show ?thesis by (simp add: updateProject_missing)
next
  case (Some row)
  then have "row \<in> set (projects db)" by (auto simp: find_Some_iff)
  with a have w: "well_stored parse stringify row" by simp
  from getProject_well_stored [OF Some w] obtain md where
    g: "getProject parse db projectId =
           Inr (Some \<lparr>proj_id = row_id row, proj_name = row_name row,
                      proj_description = row_description row,
                      proj_created_at = row_created_at row,
                      proj_updated_at = row_updated_at row, proj_metadata = md\<rparr>)"
    and p: "md = (case row_metadata row of None \<Rightarrow> None | Some s \<Rightarrow> parse s)"
    by blast
  from w p have k: "case md of None \<Rightarrow> True
                    | Some m \<Rightarrow> truthy_js m \<longrightarrow> json_roundtrip parse stringify m"
    by (auto simp: well_stored_def json_roundtrip_def split: option.splits)
  let ?md = "case in_metadata input of Some m \<Rightarrow> Some m | None \<Rightarrow> md"
  from j k have "case ?md of None \<Rightarrow> True
                 | Some m \<Rightarrow> truthy_js m \<longrightarrow> json_roundtrip parse stringify m"
    by (cases "in_metadata input") auto
  note ws = well_stored_written [OF this]
  define upd where "upd = (\<lambda>r :: project_row.
      r\<lparr>row_name := (case in_name input of Some n \<Rightarrow> n | None \<Rightarrow> row_name row),
        row_description :=
          (if truthy_str (case in_description input of
                            Some d \<Rightarrow> Some d | None \<Rightarrow> row_description row)
           then (case in_description input of Some d \<Rightarrow> Some d | None \<Rightarrow> row_description row)
           else None),
        row_metadata := (case ?md of
                           Some m \<Rightarrow> if truthy_js m then Some (stringify m) else None
                         | None \<Rightarrow> None),
        row_updated_at := now\<rparr>)"
  have wu: "well_stored parse stringify (upd r)" for r
    unfolding upd_def by (rule ws)
  have u: "projects (snd (updateProject parse stringify db projectId input now))
      = map (\<lambda>r. if row_id r = projectId then upd r else r) (projects db)"
    unfolding upd_def
    by (simp add: updateProject_def g Let_def cong: option.case_cong if_cong)
  show ?thesis
    unfolding u using a wu by auto
qed

end
